theory Spec2Isabelle
  imports Complex_Main "HOL-Library.Sublist" "HOL-Library.AList" "HOL-Library.Monad_Syntax"
begin

section \<open>Strings\<close>

text \<open>
  A JavaScript string is a sequence of UTF-16 code units. The embedding writes a string as
  a \<^typ>\<open>string\<close>: one \<^typ>\<open>char\<close> per code unit, for the code units below 256. Every
  character class of the sources (\<open>[a-zA-Z0-9_\-. ]\<close>, \<open>\d\<close>, \<open>\w\<close>, \<open>\s\<close>) is decided by the
  code unit alone, so \<open>length\<close> is the source's \<open>.length\<close> and \<open>take\<close>/\<open>drop\<close> are its
  \<open>slice\<close>.
\<close>

definition in_range :: "char \<Rightarrow> char \<Rightarrow> char \<Rightarrow> bool" where
  "in_range lo hi c = ((of_char lo :: nat) \<le> of_char c \<and> (of_char c :: nat) \<le> of_char hi)"

definition dquote :: char where
  "dquote = CHR 0x22"

definition backslash :: char where
  "backslash = CHR 0x5C"

definition squote :: char where
  "squote = CHR 0x27"

definition backtick :: char where
  "backtick = CHR 0x60"

text \<open>\<open>\d\<close> and \<open>\w\<close> of a regular expression without the \<open>u\<close> flag.\<close>

definition isDigit :: "char \<Rightarrow> bool" where
  "isDigit c = in_range CHR ''0'' CHR ''9'' c"

text \<open>The number a run of decimal digits denotes.\<close>

definition digit_value :: "char \<Rightarrow> nat" where
  "digit_value c = of_char c - of_char CHR ''0''"

definition digits_value :: "string \<Rightarrow> nat" where
  "digits_value ds = foldl (\<lambda>n c. 10 * n + digit_value c) 0 ds"

definition isAlpha :: "char \<Rightarrow> bool" where
  "isAlpha c = (in_range CHR ''a'' CHR ''z'' c \<or> in_range CHR ''A'' CHR ''Z'' c)"

definition isWord :: "char \<Rightarrow> bool" where
  "isWord c = (isAlpha c \<or> isDigit c \<or> c = CHR ''_'')"

text \<open>
  \<open>\s\<close>, which is also what \<open>String.prototype.trim\<close> strips: tab, line feed, vertical tab,
  form feed, carriage return, space and the no-break space (the members below 256).
\<close>

definition isSpace :: "char \<Rightarrow> bool" where
  "isSpace c = (c \<in> set [CHR 0x09, CHR 0x0A, CHR 0x0B, CHR 0x0C, CHR 0x0D, CHR 0x20, CHR 0xA0])"

text \<open>Line terminators: the characters \<open>.\<close> does not match.\<close>

definition isLineTerminator :: "char \<Rightarrow> bool" where
  "isLineTerminator c = (c = CHR 0x0A \<or> c = CHR 0x0D)"

definition startsWith :: "string \<Rightarrow> string \<Rightarrow> bool" where
  "startsWith s p = (take (length p) s = p)"

definition trimStart :: "string \<Rightarrow> string" where
  "trimStart s = dropWhile isSpace s"

definition trim :: "string \<Rightarrow> string" where
  "trim s = rev (dropWhile isSpace (rev (dropWhile isSpace s)))"

text \<open>\<open>s.split(c)\<close> for a one-character separator: never empty, \<open>"".split(c) = [""]\<close>.\<close>

fun split_on :: "char \<Rightarrow> string \<Rightarrow> string list" where
  "split_on c [] = [[]]"
| "split_on c (x # xs) =
     (if x = c then [] # split_on c xs
      else (case split_on c xs of
              [] \<Rightarrow> [[x]]
            | s # ss \<Rightarrow> (x # s) # ss))"

text \<open>\<open>xs.join(sep)\<close>.\<close>

fun join_with :: "string \<Rightarrow> string list \<Rightarrow> string" where
  "join_with sep [] = []"
| "join_with sep [s] = s"
| "join_with sep (s # t # ss) = s @ sep @ join_with sep (t # ss)"

section \<open>The error taxonomy\<close>

text \<open>
  The four error classes of \<open>utils.ts\<close> (\<open>SandboxError\<close>, \<open>FileNotFoundError\<close>,
  \<open>ParseError\<close>, \<open>CliExecutionError\<close> with its optional exit code), and the exceptions the
  runtime itself raises in the modelled code: a failed file-system call (carrying its
  \<open>errno\<close> code), a \<open>TypeError\<close> and a \<open>RangeError\<close> (from an assignment to the length of an
  array).
\<close>

datatype error =
    SandboxError string
  | FileNotFoundError string
  | ParseError string
  | CliExecutionError string "int option"
  | ErrnoException string
  | TypeError string
  | RangeError string

section \<open>Filename validation\<close>

text \<open>
  \<open>SAFE_FILENAME_RE = /^[a-zA-Z0-9_\-][a-zA-Z0-9_\-. ]*$/\<close>. Without the \<open>m\<close> flag \<open>^\<close> and
  \<open>$\<close> match only at the two ends of the input, so \<open>test\<close> holds exactly when the first
  code unit is in the first class and all the others are in the second.
\<close>

definition safe_first :: "char \<Rightarrow> bool" where
  "safe_first c =
     (in_range CHR ''a'' CHR ''z'' c \<or> in_range CHR ''A'' CHR ''Z'' c \<or>
      in_range CHR ''0'' CHR ''9'' c \<or> c = CHR ''_'' \<or> c = CHR ''-'')"

definition safe_rest :: "char \<Rightarrow> bool" where
  "safe_rest c =
     (in_range CHR ''a'' CHR ''z'' c \<or> in_range CHR ''A'' CHR ''Z'' c \<or>
      in_range CHR ''0'' CHR ''9'' c \<or> c = CHR ''_'' \<or> c = CHR ''-'' \<or>
      c = CHR ''.'' \<or> c = CHR '' '')"

fun SAFE_FILENAME_RE :: "string \<Rightarrow> bool" where
  "SAFE_FILENAME_RE [] = False"
| "SAFE_FILENAME_RE (c # cs) = (safe_first c \<and> list_all safe_rest cs)"

definition invalid_filename_message :: "string \<Rightarrow> string" where
  "invalid_filename_message name =
     ''Invalid filename '' @ [dquote] @ name @ [dquote] @
     '': only alphanumerics, underscores, hyphens, periods, and spaces are allowed.''"

definition validateFilename :: "string \<Rightarrow> error + unit" where
  "validateFilename name =
     (if \<not> SAFE_FILENAME_RE name then Inl (SandboxError (invalid_filename_message name))
      else Inr ())"

section \<open>The path module\<close>

text \<open>
  \<open>utils.ts\<close> and \<open>index.ts\<close> call \<open>resolve\<close>, \<open>normalize\<close>, \<open>relative\<close>, \<open>isAbsolute\<close>, \<open>join\<close>,
  \<open>basename\<close> and \<open>extname\<close> of Node's \<open>node:path\<close>. They are modelled in their POSIX
  variant, as functions of the path's separator-delimited segments, which is how Node's
  \<open>normalizeString\<close> walks a path: an empty segment and \<open>.\<close> are dropped; \<open>..\<close> removes the
  last kept segment when there is one that is not itself \<open>..\<close>, and is otherwise kept only
  when the path may climb above its start (\<open>allowAboveRoot\<close>, for relative paths).
\<close>

fun normalizeSegs :: "bool \<Rightarrow> string list \<Rightarrow> string list \<Rightarrow> string list" where
  "normalizeSegs allowAboveRoot res [] = res"
| "normalizeSegs allowAboveRoot res (s # ss) =
     (if s = [] \<or> s = ''.'' then normalizeSegs allowAboveRoot res ss
      else if s = ''..'' then
        (if res \<noteq> [] \<and> last res \<noteq> ''..'' then normalizeSegs allowAboveRoot (butlast res) ss
         else if allowAboveRoot then normalizeSegs allowAboveRoot (res @ [''..'']) ss
         else normalizeSegs allowAboveRoot res ss)
      else normalizeSegs allowAboveRoot (res @ [s]) ss)"

definition normalizeString :: "string \<Rightarrow> bool \<Rightarrow> string" where
  "normalizeString path allowAboveRoot =
     join_with ''/'' (normalizeSegs allowAboveRoot [] (split_on CHR ''/'' path))"

definition isAbsolute :: "string \<Rightarrow> bool" where
  "isAbsolute path = (path \<noteq> [] \<and> hd path = CHR ''/'')"

text \<open>
  \<open>resolve(...args)\<close> goes through its arguments from the right, then the current working
  directory, skipping empty ones and prepending each until an absolute one is found.
\<close>

fun resolveLoop :: "string list \<Rightarrow> string \<Rightarrow> string \<times> bool" where
  "resolveLoop [] resolvedPath = (resolvedPath, False)"
| "resolveLoop (path # rest) resolvedPath =
     (if path = [] then resolveLoop rest resolvedPath
      else if hd path = CHR ''/'' then (path @ ''/'' @ resolvedPath, True)
      else resolveLoop rest (path @ ''/'' @ resolvedPath))"

definition resolve :: "string \<Rightarrow> string list \<Rightarrow> string" where
  "resolve cwd args =
     (case resolveLoop (rev args @ [cwd]) [] of
        (resolvedPath, resolvedAbsolute) \<Rightarrow>
          (let normalized = normalizeString resolvedPath (\<not> resolvedAbsolute)
           in if resolvedAbsolute then CHR ''/'' # normalized
              else if normalized \<noteq> [] then normalized
              else ''.''))"

definition normalize_path :: "string \<Rightarrow> string" where
  "normalize_path path =
     (if path = [] then ''.''
      else
        (let isAbs = (hd path = CHR ''/'');
             trailingSeparator = (last path = CHR ''/'');
             p = normalizeString path (\<not> isAbs)
         in if p = [] then (if isAbs then ''/'' else if trailingSeparator then ''./'' else ''.'')
            else (if isAbs then ''/'' else []) @ p @ (if trailingSeparator then ''/'' else [])))"

definition path_join :: "string list \<Rightarrow> string" where
  "path_join args =
     (let parts = filter (\<lambda>arg. arg \<noteq> []) args
      in if parts = [] then ''.'' else normalize_path (join_with ''/'' parts))"

text \<open>The segments of a path: what is left between the separators.\<close>

definition path_segments :: "string \<Rightarrow> string list" where
  "path_segments path = filter (\<lambda>s. s \<noteq> []) (split_on CHR ''/'' path)"

fun strip_common :: "string list \<Rightarrow> string list \<Rightarrow> string list \<times> string list" where
  "strip_common (x # xs) (y # ys) = (if x = y then strip_common xs ys else (x # xs, y # ys))"
| "strip_common xs ys = (xs, ys)"

text \<open>
  \<open>relative(from, to)\<close> resolves both paths, drops their longest common run of leading
  segments, and answers one \<open>..\<close> for each segment left of \<open>from\<close> followed by the segments
  left of \<open>to\<close>.
\<close>

definition relative :: "string \<Rightarrow> string \<Rightarrow> string \<Rightarrow> string" where
  "relative cwd from to =
     (if from = to then []
      else
        (let f = resolve cwd [from]; t = resolve cwd [to]
         in if f = t then []
            else (case strip_common (path_segments f) (path_segments t) of
                    (fs, ts) \<Rightarrow> join_with ''/'' (replicate (length fs) ''..'' @ ts))))"

text \<open>
  \<open>basename(path, suffix)\<close> and \<open>extname(path)\<close> look at the last segment of the path. The
  extension runs from the last period of that segment to its end; there is none when the
  segment has no period, begins with its only period, or is \<open>..\<close>. \<open>basename\<close> removes the
  suffix from the last segment unless the segment is the suffix. (For a path without a
  separator, which is what a validated filename is, this is all Node's character loop
  does.)
\<close>

definition last_component :: "string \<Rightarrow> string" where
  "last_component path =
     (case rev (path_segments path) of
        [] \<Rightarrow> []
      | s # ss \<Rightarrow> s)"

definition extname :: "string \<Rightarrow> string" where
  "extname path =
     (let comp = last_component path;
          ext = CHR ''.'' # rev (takeWhile (\<lambda>c. c \<noteq> CHR ''.'') (rev comp))
      in if CHR ''.'' \<notin> set comp then []
         else if length ext = length comp then []
         else if comp = ''..'' then []
         else ext)"

definition basename :: "string \<Rightarrow> string \<Rightarrow> string" where
  "basename path ext =
     (if ext \<noteq> [] \<and> length ext \<le> length path
      then (if ext = path then []
            else
              (let comp = last_component path
               in if comp \<noteq> ext \<and> drop (length comp - length ext) comp = ext
                  then take (length comp - length ext) comp
                  else comp))
      else last_component path)"

section \<open>Configuration\<close>

text \<open>
  \<open>config.ts\<close> exports \<open>LOG_LEVEL\<close>, \<open>WORKDIR\<close>, \<open>ORCA_USER_DIR\<close> and \<open>ORCA_SLICER_PATH\<close>, set
  once at start-up from the command line and the environment. With the process's working
  directory (which \<open>resolve\<close> reads) they are the configuration every operation takes.
\<close>

datatype LogLevel = Debug | Info | Error

fun LEVEL_PRIORITY :: "LogLevel \<Rightarrow> nat" where
  "LEVEL_PRIORITY Debug = 0"
| "LEVEL_PRIORITY Info = 1"
| "LEVEL_PRIORITY Error = 2"

record config =
  cwd :: string
  LOG_LEVEL :: LogLevel
  WORKDIR :: string
  ORCA_USER_DIR :: string
  ORCA_SLICER_PATH :: string

section \<open>The sandbox\<close>

definition getAllowedRoots :: "config \<Rightarrow> string list" where
  "getAllowedRoots cfg = [resolve (cwd cfg) [WORKDIR cfg], resolve (cwd cfg) [ORCA_USER_DIR cfg]]"

definition access_denied_message :: "string \<Rightarrow> string \<Rightarrow> string list \<Rightarrow> string" where
  "access_denied_message raw normalised roots =
     ''Access denied: path '' @ [dquote] @ raw @ [dquote] @ '' resolves to '' @ [dquote] @
     normalised @ [dquote] @ '' which is outside the allowed directories: '' @
     join_with '', '' roots"

definition inside_root :: "config \<Rightarrow> string \<Rightarrow> string \<Rightarrow> bool" where
  "inside_root cfg normalised allowed =
     (let rel = relative (cwd cfg) allowed normalised
      in \<not> startsWith rel ''..'' \<and> \<not> isAbsolute rel)"

definition resolveSandboxed :: "config \<Rightarrow> string \<Rightarrow> error + string" where
  "resolveSandboxed cfg raw =
     (let resolved = resolve (cwd cfg) [raw];
          normalised = normalize_path resolved;
          roots = getAllowedRoots cfg;
          inside = list_ex (inside_root cfg normalised) roots
      in if \<not> inside then Inl (SandboxError (access_denied_message raw normalised roots))
         else Inr normalised)"

section \<open>The file system and the operational log\<close>

text \<open>
  What the operations read and change outside the process: the files (path and content),
  the directories, the paths on which a file-system call fails and the \<open>errno\<close> code it
  fails with (a permission, a full disk, a missing parent directory), and the lines \<open>log\<close>
  has written to the standard error stream. \<open>log(level, message, meta)\<close> of \<open>config.ts\<close> drops
  a line below the configured level; of a written line the level and the message are kept.
\<close>

record world =
  files :: "(string \<times> string) list"
  directories :: "string list"
  faults :: "(string \<times> string) list"
  stderr :: "(LogLevel \<times> string) list"

definition log_stderr :: "config \<Rightarrow> LogLevel \<Rightarrow> string \<Rightarrow> world \<Rightarrow> world" where
  "log_stderr cfg level message w =
     (if LEVEL_PRIORITY level < LEVEL_PRIORITY (LOG_LEVEL cfg) then w
      else w\<lparr>stderr := stderr w @ [(level, message)]\<rparr>)"

definition newline :: char where
  "newline = CHR 0x0A"

text \<open>
  The calls of \<open>node:fs/promises\<close>: a rejected promise is the error. A directory can be
  tested with \<open>access\<close>, but not read or written as a file.
\<close>

definition readFile :: "world \<Rightarrow> string \<Rightarrow> error + string" where
  "readFile w path =
     (case map_of (faults w) path of
        Some code \<Rightarrow> Inl (ErrnoException code)
      | None \<Rightarrow>
          (if path \<in> set (directories w) then Inl (ErrnoException ''EISDIR'')
           else (case map_of (files w) path of
                   None \<Rightarrow> Inl (ErrnoException ''ENOENT'')
                 | Some content \<Rightarrow> Inr content)))"

definition writeFile :: "world \<Rightarrow> string \<Rightarrow> string \<Rightarrow> (error + unit) \<times> world" where
  "writeFile w path content =
     (case map_of (faults w) path of
        Some code \<Rightarrow> (Inl (ErrnoException code), w)
      | None \<Rightarrow>
          (if path \<in> set (directories w) then (Inl (ErrnoException ''EISDIR''), w)
           else (Inr (), w\<lparr>files := AList.update path content (files w)\<rparr>)))"

definition appendFile :: "world \<Rightarrow> string \<Rightarrow> string \<Rightarrow> (error + unit) \<times> world" where
  "appendFile w path data =
     (case map_of (faults w) path of
        Some code \<Rightarrow> (Inl (ErrnoException code), w)
      | None \<Rightarrow>
          (if path \<in> set (directories w) then (Inl (ErrnoException ''EISDIR''), w)
           else (Inr (),
                 w\<lparr>files := AList.update path
                       ((case map_of (files w) path of None \<Rightarrow> [] | Some old \<Rightarrow> old) @ data)
                       (files w)\<rparr>)))"

definition access :: "world \<Rightarrow> string \<Rightarrow> error + unit" where
  "access w path =
     (case map_of (faults w) path of
        Some code \<Rightarrow> Inl (ErrnoException code)
      | None \<Rightarrow>
          (if path \<in> set (directories w) then Inr ()
           else (case map_of (files w) path of
                   None \<Rightarrow> Inl (ErrnoException ''ENOENT'')
                 | Some content \<Rightarrow> Inr ())))"

section \<open>Safe file I/O\<close>

definition safeReadFile :: "config \<Rightarrow> world \<Rightarrow> string \<Rightarrow> error + string" where
  "safeReadFile cfg w filePath =
     (case resolveSandboxed cfg filePath of
        Inl e \<Rightarrow> Inl e
      | Inr safe \<Rightarrow>
          (case readFile w safe of
             Inl (ErrnoException code) \<Rightarrow>
               (if code = ''ENOENT'' then Inl (FileNotFoundError (''File not found: '' @ safe))
                else Inl (ErrnoException code))
           | Inl err \<Rightarrow> Inl err
           | Inr content \<Rightarrow> Inr content))"

definition safeWriteFile :: "config \<Rightarrow> world \<Rightarrow> string \<Rightarrow> string \<Rightarrow> (error + unit) \<times> world" where
  "safeWriteFile cfg w filePath content =
     (case resolveSandboxed cfg filePath of
        Inl e \<Rightarrow> (Inl e, w)
      | Inr safe \<Rightarrow>
          (case writeFile w safe content of
             (Inl err, w') \<Rightarrow> (Inl err, w')
           | (Inr u, w') \<Rightarrow> (Inr (), log_stderr cfg Info ''File written'' w')))"

text \<open>
  \<open>safeFileExists\<close>: the sandbox is consulted before the \<open>try\<close> block, so its error is
  thrown to the caller; only a failure of \<open>access\<close> is caught and answered \<open>false\<close>.
\<close>

definition safeFileExists :: "config \<Rightarrow> world \<Rightarrow> string \<Rightarrow> error + bool" where
  "safeFileExists cfg w filePath =
     (case resolveSandboxed cfg filePath of
        Inl e \<Rightarrow> Inl e
      | Inr safe \<Rightarrow>
          (case access w safe of
             Inl err \<Rightarrow> Inr False
           | Inr u \<Rightarrow> Inr True))"

section \<open>JavaScript values and JSON\<close>

text \<open>
  The values the sources handle as \<open>unknown\<close>: what \<open>JSON.parse\<close> builds, and \<open>undefined\<close> and
  \<open>BigInt\<close>, which a caller can pass besides. A number is \<open>NaN\<close> or the number its decimal
  numeral denotes, of which JavaScript keeps the nearest double. An object is the list
  of its own properties; \<open>JInherited name\<close> stands for the member of that name which every
  plain object inherits from \<open>Object.prototype\<close> (a function, or for \<open>__proto__\<close> the
  prototype itself).
\<close>

datatype js_number = NaN | Num rat

datatype js_value =
    JUndefined
  | JNull
  | JBool bool
  | JNumber js_number
  | JBigInt int
  | JString string
  | JArray "js_value list"
  | JObject "(string \<times> js_value) list"
  | JInherited string

text \<open>The property names a plain object (\<open>{}\<close>, or built by \<open>JSON.parse\<close>) inherits.\<close>

definition Object_prototype_keys :: "string list" where
  "Object_prototype_keys =
     [''constructor'', ''__defineGetter__'', ''__defineSetter__'', ''hasOwnProperty'',
      ''__lookupGetter__'', ''__lookupSetter__'', ''isPrototypeOf'', ''propertyIsEnumerable'',
      ''toString'', ''valueOf'', ''__proto__'', ''toLocaleString'']"

text \<open>\<open>key in obj\<close>: an own property or an inherited one.\<close>

definition js_in :: "string \<Rightarrow> (string \<times> js_value) list \<Rightarrow> bool" where
  "js_in key props = (map_of props key \<noteq> None \<or> key \<in> set Object_prototype_keys)"

text \<open>\<open>obj[key]\<close>.\<close>

definition js_get :: "(string \<times> js_value) list \<Rightarrow> string \<Rightarrow> js_value" where
  "js_get props key =
     (case map_of props key of
        Some v \<Rightarrow> v
      | None \<Rightarrow> (if key \<in> set Object_prototype_keys then JInherited key else JUndefined))"

text \<open>
  The order of the own properties of an object, which \<open>JSON.stringify\<close> and the spread
  follow: first the properties whose name is an array index (the decimal numeral, without
  leading zeros, of a number from 0 to \<open>2\<^sup>3\<^sup>2 - 2\<close>) by ascending index, then the others in the
  order they were created. Defining a property that the object has keeps its place;
  a new one goes to the place this order gives it.
\<close>

definition is_array_index :: "string \<Rightarrow> bool" where
  "is_array_index key =
     (key = ''0'' \<or>
      (case key of
         [] \<Rightarrow> False
       | c # cs \<Rightarrow>
           in_range CHR ''1'' CHR ''9'' c \<and> list_all isDigit cs \<and>
           digits_value key < 4294967295))"

fun insert_index ::
  "string \<Rightarrow> js_value \<Rightarrow> (string \<times> js_value) list \<Rightarrow> (string \<times> js_value) list" where
  "insert_index key v [] = [(key, v)]"
| "insert_index key v ((k, x) # rest) =
     (if is_array_index k \<and> digits_value k < digits_value key
      then (k, x) # insert_index key v rest
      else (key, v) # (k, x) # rest)"

definition js_define ::
  "(string \<times> js_value) list \<Rightarrow> string \<Rightarrow> js_value \<Rightarrow> (string \<times> js_value) list" where
  "js_define props key v =
     (if map_of props key = None \<and> is_array_index key then insert_index key v props
      else AList.update key v props)"

text \<open>
  \<open>obj[key] = value\<close> on a plain object: the own property of that name is defined, except
  that under the name \<open>__proto__\<close>, when the object has no own property of that name, the
  assignment runs the setter inherited from \<open>Object.prototype\<close> and creates no own property.
\<close>

definition js_set :: "(string \<times> js_value) list \<Rightarrow> string \<Rightarrow> js_value \<Rightarrow> (string \<times> js_value) list" where
  "js_set props key v =
     (if map_of props key = None \<and> key = ''__proto__'' then props
      else js_define props key v)"

text \<open>
  \<open>{...a, ...b}\<close>: the properties of \<open>b\<close> are defined one by one on a copy of \<open>a\<close>.
\<close>

definition js_spread :: "(string \<times> js_value) list \<Rightarrow> (string \<times> js_value) list \<Rightarrow> (string \<times> js_value) list" where
  "js_spread a b = fold (\<lambda>(k, v) acc. js_define acc k v) b a"

text \<open>
  \<open>JSON.stringify\<close> throws a \<open>TypeError\<close> when it meets a \<open>BigInt\<close>. It skips a property
  whose value is \<open>undefined\<close> or a function, and prints \<open>null\<close> for such an element of an
  array.
\<close>

fun has_bigint :: "js_value \<Rightarrow> bool" where
  "has_bigint (JBigInt n) = True"
| "has_bigint (JArray vs) = list_ex has_bigint vs"
| "has_bigint (JObject props) = list_ex has_bigint (map snd props)"
| "has_bigint v = False"

text \<open>
  The text \<open>JSON.stringify(value, null, indent)\<close> prints and the value \<open>JSON.parse(text)\<close>
  builds are taken from the runtime. So is what reading a property of an array or of a
  primitive and then assigning to it does, \<open>old = data[key]; data[key] = value\<close>: the error
  thrown, or the value read and what \<open>data\<close> is afterwards.
\<close>

record json_runtime =
  print_json :: "nat \<Rightarrow> js_value \<Rightarrow> string"
  parse_json :: "string \<Rightarrow> js_value option"
  assign_property :: "js_value \<Rightarrow> string \<Rightarrow> js_value \<Rightarrow> error + js_value \<times> js_value"

definition JSON_stringify :: "json_runtime \<Rightarrow> js_value \<Rightarrow> nat \<Rightarrow> error + string" where
  "JSON_stringify rt v indent =
     (if has_bigint v then Inl (TypeError ''Do not know how to serialize a BigInt'')
      else Inr (print_json rt indent v))"

text \<open>\<open>parseJSON\<close> of \<open>utils.ts\<close>: any failure of \<open>JSON.parse\<close> becomes a \<open>ParseError\<close>.\<close>

definition parseJSON :: "json_runtime \<Rightarrow> string \<Rightarrow> string \<Rightarrow> error + js_value" where
  "parseJSON rt raw label =
     (case parse_json rt raw of
        None \<Rightarrow> Inl (ParseError (''Failed to parse JSON from '' @ label))
      | Some v \<Rightarrow> Inr v)"

section \<open>The audit log\<close>

definition AUDIT_LOG_FILENAME :: string where
  "AUDIT_LOG_FILENAME = ''tuning_history.log''"

text \<open>
  \<open>auditLog(action, details)\<close>; \<open>now\<close> is what \<open>new Date().toISOString()\<close> answers. The entry
  is serialised before the \<open>try\<close> block; the \<open>catch\<close> covers \<open>appendFile\<close> alone.
\<close>

definition auditLog ::
  "config \<Rightarrow> json_runtime \<Rightarrow> string \<Rightarrow> string \<Rightarrow> (string \<times> js_value) list \<Rightarrow> world \<Rightarrow>
   (error + unit) \<times> world" where
  "auditLog cfg rt now action details w =
     (let logPath = resolve (cwd cfg) [WORKDIR cfg, AUDIT_LOG_FILENAME]
      in case JSON_stringify rt
                (JObject (js_spread [(''ts'', JString now), (''action'', JString action)] details)) 0 of
           Inl e \<Rightarrow> (Inl e, w)
         | Inr entry \<Rightarrow>
             (case appendFile w logPath (entry @ [newline]) of
                (Inl err, w') \<Rightarrow> (Inr (), log_stderr cfg Error ''Failed to write audit log'' w')
              | (Inr u, w') \<Rightarrow> (Inr (), w')))"

section \<open>The G-code metadata parser\<close>

subsection \<open>Regular expressions\<close>

text \<open>
  The six regular expressions of \<open>parseGcodeMetadata\<close> are translated piece by piece. A
  literal under the \<open>i\<close> flag matches a character in either case; for the code units below
  256 that is the ASCII case pair.
\<close>

definition toUpperCase :: "char \<Rightarrow> char" where
  "toUpperCase c =
     (case map_of (zip ''abcdefghijklmnopqrstuvwxyz'' ''ABCDEFGHIJKLMNOPQRSTUVWXYZ'') c of
        Some u \<Rightarrow> u
      | None \<Rightarrow> c)"

text \<open>
  \<open>toLowerCase\<close> is applied to a normalized key only, made of ASCII word characters, where
  it is the ASCII lower-casing.
\<close>

definition toLowerCase :: "char \<Rightarrow> char" where
  "toLowerCase c =
     (case map_of (zip ''ABCDEFGHIJKLMNOPQRSTUVWXYZ'' ''abcdefghijklmnopqrstuvwxyz'') c of
        Some l \<Rightarrow> l
      | None \<Rightarrow> c)"

text \<open>A literal at the start of the input, with and without the \<open>i\<close> flag; what follows it.\<close>

definition lit_ci :: "string \<Rightarrow> string \<Rightarrow> string option" where
  "lit_ci pat s =
     (if map toUpperCase (take (length pat) s) = map toUpperCase pat
      then Some (drop (length pat) s) else None)"

definition lit :: "string \<Rightarrow> string \<Rightarrow> string option" where
  "lit pat s = (if take (length pat) s = pat then Some (drop (length pat) s) else None)"

text \<open>
  \<open>\s*\<close> before a piece that cannot begin with white space (a literal \<open>[\<close> or \<open>=\<close>, a digit
  or a period): it takes all the white space there is, and giving some back cannot help.
\<close>

definition spaces :: "string \<Rightarrow> string option" where
  "spaces s = Some (dropWhile isSpace s)"

text \<open>A final group \<open>([\d.]+)\<close> or \<open>(\d+)\<close>: the longest run of the class, not empty.\<close>

definition capture_run :: "(char \<Rightarrow> bool) \<Rightarrow> string \<Rightarrow> string option" where
  "capture_run cls s = (let cap = takeWhile cls s in if cap = [] then None else Some cap)"

definition isDigitOrDot :: "char \<Rightarrow> bool" where
  "isDigitOrDot c = (isDigit c \<or> c = CHR ''.'')"

text \<open>
  \<open>\s*(.+)$\<close>: \<open>\s*\<close> first takes the \<open>k\<close> white-space characters there are and gives them back
  one by one until the rest, to the end of the input, is not empty and has no line
  terminator; the rest is the group.
\<close>

fun value_backtrack :: "nat \<Rightarrow> string \<Rightarrow> string option" where
  "value_backtrack 0 s = (if s \<noteq> [] \<and> \<not> list_ex isLineTerminator s then Some s else None)"
| "value_backtrack (Suc k) s =
     (if drop (Suc k) s \<noteq> [] \<and> \<not> list_ex isLineTerminator (drop (Suc k) s)
      then Some (drop (Suc k) s)
      else value_backtrack k s)"

definition value_to_end :: "string \<Rightarrow> string option" where
  "value_to_end s = value_backtrack (length (takeWhile isSpace s)) s"

text \<open>
  \<open>.*?=\s*(.+)$\<close>: the lazy \<open>.*?\<close> stops at the first \<open>=\<close> after which the rest matches, and
  crosses no line terminator.
\<close>

fun lazy_to_equals :: "string \<Rightarrow> string option" where
  "lazy_to_equals [] = None"
| "lazy_to_equals (c # cs) =
     (case (if c = CHR ''='' then value_to_end cs else None) of
        Some cap \<Rightarrow> Some cap
      | None \<Rightarrow> (if isLineTerminator c then None else lazy_to_equals cs))"

text \<open>\<open>/^estimated printing time.*?=\s*(.+)$/i\<close>\<close>

definition timeMatch :: "string \<Rightarrow> string option" where
  "timeMatch body = lit_ci ''estimated printing time'' body \<bind> lazy_to_equals"

text \<open>\<open>/^filament used\s*\[mm\]\s*=\s*([\d.]+)/i\<close>\<close>

definition filMmMatch :: "string \<Rightarrow> string option" where
  "filMmMatch body =
     lit_ci ''filament used'' body \<bind> spaces \<bind> lit_ci ''[mm]'' \<bind> spaces \<bind>
     lit ''='' \<bind> spaces \<bind> capture_run isDigitOrDot"

text \<open>\<open>/^filament used\s*\[g\]\s*=\s*([\d.]+)/i\<close>\<close>

definition filGMatch :: "string \<Rightarrow> string option" where
  "filGMatch body =
     lit_ci ''filament used'' body \<bind> spaces \<bind> lit_ci ''[g]'' \<bind> spaces \<bind>
     lit ''='' \<bind> spaces \<bind> capture_run isDigitOrDot"

text \<open>\<open>/^filament cost\s*=\s*([\d.]+)/i\<close>\<close>

definition costMatch :: "string \<Rightarrow> string option" where
  "costMatch body =
     lit_ci ''filament cost'' body \<bind> spaces \<bind> lit ''='' \<bind> spaces \<bind>
     capture_run isDigitOrDot"

text \<open>\<open>/^total layers count\s*=\s*(\d+)/i\<close>\<close>

definition layerMatch :: "string \<Rightarrow> string option" where
  "layerMatch body =
     lit_ci ''total layers count'' body \<bind> spaces \<bind> lit ''='' \<bind> spaces \<bind>
     capture_run isDigit"

text \<open>
  \<open>/^([a-zA-Z_][\w\s]*\w)\s*=\s*(.+)$/\<close>: after the first character, \<open>[\w\s]*\<close> takes the \<open>k\<close>
  characters of its class there are and gives them back one by one until a word
  character, then white space, \<open>=\<close> and the value follow. The groups are the key, up to
  that word character, and the value.
\<close>

definition isWordOrSpace :: "char \<Rightarrow> bool" where
  "isWordOrSpace c = (isWord c \<or> isSpace c)"

definition kv_at :: "nat \<Rightarrow> string \<Rightarrow> (string \<times> string) option" where
  "kv_at k s =
     (if k < length s \<and> isWord (s ! k)
      then (case spaces (drop (Suc k) s) \<bind> lit ''='' \<bind> value_to_end of
              Some v \<Rightarrow> Some (take (Suc k) s, v)
            | None \<Rightarrow> None)
      else None)"

fun kv_backtrack :: "nat \<Rightarrow> string \<Rightarrow> (string \<times> string) option" where
  "kv_backtrack 0 s = kv_at 0 s"
| "kv_backtrack (Suc k) s =
     (case kv_at (Suc k) s of
        Some r \<Rightarrow> Some r
      | None \<Rightarrow> kv_backtrack k s)"

definition kvMatch :: "string \<Rightarrow> (string \<times> string) option" where
  "kvMatch body =
     (case body of
        [] \<Rightarrow> None
      | c # s \<Rightarrow>
          (if isAlpha c \<or> c = CHR ''_''
           then (case kv_backtrack (length (takeWhile isWordOrSpace s)) s of
                   Some (k, v) \<Rightarrow> Some (c # k, v)
                 | None \<Rightarrow> None)
           else None))"

subsection \<open>Numbers\<close>

text \<open>
  \<open>parseFloat\<close> and \<open>parseInt(_, 10)\<close> on what the groups \<open>[\d.]+\<close> and \<open>\d+\<close> hold, digits and
  periods. \<open>parseFloat\<close> reads the longest prefix that is a decimal numeral (digits, then
  possibly a period and digits) and answers \<open>NaN\<close> when that prefix has no digit.
\<close>

definition parseFloat :: "string \<Rightarrow> js_number" where
  "parseFloat s =
     (let intPart = takeWhile isDigit s;
          afterInt = dropWhile isDigit s;
          fracPart = (case afterInt of
                        [] \<Rightarrow> []
                      | c # r \<Rightarrow> if c = CHR ''.'' then takeWhile isDigit r else [])
      in if intPart = [] \<and> fracPart = [] then NaN
         else Num (of_nat (digits_value intPart) +
                   of_nat (digits_value fracPart) / 10 ^ length fracPart))"

definition parseInt :: "string \<Rightarrow> js_number" where
  "parseInt s =
     (let digits = takeWhile isDigit s
      in if digits = [] then NaN else Num (of_nat (digits_value digits)))"

subsection \<open>The parser\<close>

text \<open>\<open>replace(/\s+/g, "_")\<close>: every maximal run of white space becomes one underscore.\<close>

function collapse_spaces :: "string \<Rightarrow> string" where
  "collapse_spaces [] = []"
| "collapse_spaces (c # cs) =
     (if isSpace c then CHR ''_'' # collapse_spaces (dropWhile isSpace cs)
      else c # collapse_spaces cs)"
  by pat_completeness auto
termination
  by (relation "measure length") (auto simp: le_imp_less_Suc length_dropWhile_le)

definition normalize_key :: "string \<Rightarrow> string" where
  "normalize_key k = map toLowerCase (collapse_spaces (trim k))"

text \<open>The body of the loop over the lines; \<open>meta\<close> is the object being filled.\<close>

definition process_line :: "(string \<times> js_value) list \<Rightarrow> string \<Rightarrow> (string \<times> js_value) list" where
  "process_line meta line =
     (let trimmed = trim line
      in if \<not> startsWith trimmed '';'' then meta
         else
           (let body = trim (drop 1 trimmed)
            in case timeMatch body of
                 Some t \<Rightarrow> js_set meta ''estimatedTime'' (JString (trim t))
               | None \<Rightarrow>
              (case filMmMatch body of
                 Some n \<Rightarrow> js_set meta ''filamentUsedMm'' (JNumber (parseFloat n))
               | None \<Rightarrow>
              (case filGMatch body of
                 Some n \<Rightarrow> js_set meta ''filamentUsedG'' (JNumber (parseFloat n))
               | None \<Rightarrow>
              (case costMatch body of
                 Some n \<Rightarrow> js_set meta ''filamentCost'' (JNumber (parseFloat n))
               | None \<Rightarrow>
              (case layerMatch body of
                 Some n \<Rightarrow> js_set meta ''layerCount'' (JNumber (parseInt n))
               | None \<Rightarrow>
              (case kvMatch body of
                 Some (k, v) \<Rightarrow>
                   (let key = normalize_key k
                    in if \<not> js_in key meta then js_set meta key (JString (trim v)) else meta)
               | None \<Rightarrow> meta)))))))"

definition parseGcodeMetadata :: "string \<Rightarrow> (string \<times> js_value) list" where
  "parseGcodeMetadata gcode =
     (let tail = drop (length gcode - 4096) gcode;
          lines = split_on newline tail
      in foldl process_line [] lines)"

section \<open>The tool handlers\<close>

text \<open>What a handler returns: the \<open>isError\<close> flag and the text of its one content item.\<close>

record tool_result =
  isError :: bool
  content_text :: string

datatype ProfileType = Machine | Filament | Process

fun type_name :: "ProfileType \<Rightarrow> string" where
  "type_name Machine = ''machine''"
| "type_name Filament = ''filament''"
| "type_name Process = ''process''"

definition profileDir :: "config \<Rightarrow> ProfileType \<Rightarrow> string" where
  "profileDir cfg t = path_join [ORCA_USER_DIR cfg, type_name t]"

definition readProfile ::
  "config \<Rightarrow> json_runtime \<Rightarrow> world \<Rightarrow> ProfileType \<Rightarrow> string \<Rightarrow> error + js_value" where
  "readProfile cfg rt w t name =
     (case validateFilename name of
        Inl e \<Rightarrow> Inl e
      | Inr u \<Rightarrow>
          (let filePath = path_join [profileDir cfg t, name]
           in case safeReadFile cfg w filePath of
                Inl e \<Rightarrow> Inl e
              | Inr raw \<Rightarrow> parseJSON rt raw filePath))"

subsection \<open>\<open>update_profile_setting\<close>\<close>

record update_args =
  profile_type :: ProfileType
  profile_name :: string
  setting_key :: string
  setting_value :: js_value
  dry_run :: bool

definition tuned_name :: "string \<Rightarrow> string" where
  "tuned_name name =
     (let ext = extname name;
          base = basename name ext
      in base @ ''_tuned'' @ ext)"

text \<open>
  The first two statements of \<open>handleUpdateProfileSetting\<close>, \<open>oldValue = data[args.key]\<close> and
  \<open>data[args.key] = args.value\<close>. The source casts the parsed profile to
  \<open>Record<string, unknown>\<close> without a check, so \<open>data\<close> is whatever \<open>JSON.parse\<close> has built. On
  \<open>null\<close> the read throws. On an array and on a primitive the outcome depends on the key
  (an index, \<open>length\<close>, an inherited name, any other name) and is the runtime's.
\<close>

definition assign_setting ::
  "json_runtime \<Rightarrow> js_value \<Rightarrow> string \<Rightarrow> js_value \<Rightarrow> error + js_value \<times> js_value" where
  "assign_setting rt data key v =
     (case data of
        JObject props \<Rightarrow> Inr (js_get props key, JObject (js_set props key v))
      | JNull \<Rightarrow>
          Inl (TypeError (''Cannot read properties of null (reading '' @
                          [squote] @ key @ [squote] @ '')''))
      | JUndefined \<Rightarrow>
          Inl (TypeError (''Cannot read properties of undefined (reading '' @
                          [squote] @ key @ [squote] @ '')''))
      | other \<Rightarrow> assign_property rt other key v)"

definition handleUpdateProfileSetting ::
  "config \<Rightarrow> json_runtime \<Rightarrow> string \<Rightarrow> update_args \<Rightarrow> world \<Rightarrow> (error + tool_result) \<times> world" where
  "handleUpdateProfileSetting cfg rt now args w =
     (case readProfile cfg rt w (profile_type args) (profile_name args) of
        Inl e \<Rightarrow> (Inl e, w)
      | Inr profile \<Rightarrow>
     (case assign_setting rt profile (setting_key args) (setting_value args) of
        Inl e \<Rightarrow> (Inl e, w)
      | Inr (oldValue, data) \<Rightarrow>
          (let targetName = (if dry_run args then tuned_name (profile_name args)
                             else profile_name args);
               targetPath = path_join [profileDir cfg (profile_type args), targetName]
           in case JSON_stringify rt data 2 of
                Inl e \<Rightarrow> (Inl e, w)
              | Inr text \<Rightarrow>
                  (case safeWriteFile cfg w targetPath text of
                     (Inl e, w1) \<Rightarrow> (Inl e, w1)
                   | (Inr u, w1) \<Rightarrow>
                       (case auditLog cfg rt now ''update_profile_setting''
                               [(''type'', JString (type_name (profile_type args))),
                                (''profile'', JString (profile_name args)),
                                (''savedAs'', JString targetName),
                                (''key'', JString (setting_key args)),
                                (''oldValue'', oldValue),
                                (''newValue'', setting_value args),
                                (''dryRun'', JBool (dry_run args))] w1 of
                          (Inl e, w2) \<Rightarrow> (Inl e, w2)
                        | (Inr u, w2) \<Rightarrow>
                            (case JSON_stringify rt
                                    (JObject
                                      [(''success'', JBool True),
                                       (''profile'', JString targetName),
                                       (''key'', JString (setting_key args)),
                                       (''oldValue'', oldValue),
                                       (''newValue'', setting_value args),
                                       (''dry_run'', JBool (dry_run args))]) 2 of
                               Inl e \<Rightarrow> (Inl e, w2)
                             | Inr response \<Rightarrow>
                                 (Inr \<lparr>isError = False, content_text = response\<rparr>, w2)))))))"

subsection \<open>\<open>slice_model\<close>\<close>

text \<open>
  How the spawned process ends is decided outside the server: it exits with a code and
  its captured output, it cannot be spawned, it is killed at the timeout, or it is killed
  by a signal from elsewhere, in both cases with the output captured so far.
\<close>

datatype process_outcome =
    Exited int string string
  | SpawnFailed
  | TimedOut string string
  | Killed string string

definition captured_stdout :: "process_outcome \<Rightarrow> string" where
  "captured_stdout outcome =
     (case outcome of
        Exited code out err \<Rightarrow> out
      | SpawnFailed \<Rightarrow> []
      | TimedOut out err \<Rightarrow> out
      | Killed out err \<Rightarrow> out)"

definition captured_stderr :: "process_outcome \<Rightarrow> string" where
  "captured_stderr outcome =
     (case outcome of
        Exited code out err \<Rightarrow> err
      | SpawnFailed \<Rightarrow> []
      | TimedOut out err \<Rightarrow> err
      | Killed out err \<Rightarrow> err)"

text \<open>
  \<open>execa(file, args, {timeout})\<close> with its default options: the promise resolves to the
  result when the process exits with code 0, and is rejected with an error object
  otherwise. The library is not part of the sources; what differs between its versions
  is taken from the process environment, with the outcome of the process.

  The \<open>message\<close> of the error is execa's own short message (it names the failure and the
  command), then the captured \<open>stderr\<close>, then the captured \<open>stdout\<close>: the parts that are
  not empty, with a separator between them (a line feed, two in the later versions). The
  later versions escape the control characters of every part. So the message carries the
  whole captured output.

  The error has the property \<open>exitCode\<close> with the code when the process exited. When there is
  no exit code (the process was not spawned, or was killed), the earlier versions of execa
  give the property the value \<open>undefined\<close> and the later ones leave the property out, as
  they do for every property that would be \<open>undefined\<close>; \<open>omits_undefined\<close> says which.
\<close>

record process_env =
  run_process :: "string \<Rightarrow> string list \<Rightarrow> nat \<Rightarrow> process_outcome"
  short_message :: "process_outcome \<Rightarrow> string"
  escape_lines :: "string \<Rightarrow> string"
  message_separator :: string
  omits_undefined :: bool

record execa_result =
  exitCode :: int
  stdout :: string
  stderr_out :: string

text \<open>
  A thrown value as the \<open>catch\<close> block of \<open>handleSliceModel\<close> looks at it: whether it has an
  \<open>exitCode\<close> property and its value, whether it has a \<open>stderr\<close> property and that as a
  string, and its message.
\<close>

record thrown =
  exitCode_prop :: "int option option"
  stderr_prop :: "string option"
  message :: string

definition execa_message :: "process_env \<Rightarrow> process_outcome \<Rightarrow> string" where
  "execa_message env outcome =
     join_with (message_separator env)
       (filter (\<lambda>part. part \<noteq> [])
          (map (escape_lines env)
             [short_message env outcome, captured_stderr outcome, captured_stdout outcome]))"

definition execa :: "process_env \<Rightarrow> process_outcome \<Rightarrow> thrown + execa_result" where
  "execa env outcome =
     (case outcome of
        Exited code out err \<Rightarrow>
          (if code = 0 then Inr \<lparr>exitCode = 0, stdout = out, stderr_out = err\<rparr>
           else Inl \<lparr>exitCode_prop = Some (Some code), stderr_prop = Some err,
                     message = execa_message env outcome\<rparr>)
      | SpawnFailed \<Rightarrow>
          Inl \<lparr>exitCode_prop = (if omits_undefined env then None else Some None),
               stderr_prop = (if omits_undefined env then None else Some []),
               message = execa_message env outcome\<rparr>
      | TimedOut out err \<Rightarrow>
          Inl \<lparr>exitCode_prop = (if omits_undefined env then None else Some None),
               stderr_prop = Some err,
               message = execa_message env outcome\<rparr>
      | Killed out err \<Rightarrow>
          Inl \<lparr>exitCode_prop = (if omits_undefined env then None else Some None),
               stderr_prop = Some err,
               message = execa_message env outcome\<rparr>)"

text \<open>The message of an error of the taxonomy, for an error thrown inside the \<open>try\<close> block.\<close>

fun error_message :: "error \<Rightarrow> string" where
  "error_message (SandboxError m) = m"
| "error_message (FileNotFoundError m) = m"
| "error_message (ParseError m) = m"
| "error_message (CliExecutionError m c) = m"
| "error_message (ErrnoException code) = code"
| "error_message (TypeError m) = m"
| "error_message (RangeError m) = m"

definition thrown_error :: "error \<Rightarrow> thrown" where
  "thrown_error e = \<lparr>exitCode_prop = None, stderr_prop = None, message = error_message e\<rparr>"

text \<open>Decimal numerals, for the exit code in the message.\<close>

fun show_nat :: "nat \<Rightarrow> string" where
  "show_nat n =
     (if n < 10 then [''0123456789'' ! n]
      else show_nat (n div 10) @ [''0123456789'' ! (n mod 10)])"

declare show_nat.simps [simp del]

definition show_int :: "int \<Rightarrow> string" where
  "show_int i = (if i < 0 then CHR ''-'' # show_nat (nat (- i)) else show_nat (nat i))"

definition show_exitCode :: "int option \<Rightarrow> string" where
  "show_exitCode c = (case c of None \<Rightarrow> ''undefined'' | Some i \<Rightarrow> show_int i)"

record slice_args =
  input_file :: string
  output_file :: string
  profile_machine :: "string option"
  profile_filament :: "string option"
  profile_process :: "string option"
  timeout_ms :: nat

text \<open>
  An optional profile of \<open>handleSliceModel\<close>: skipped when absent or empty, otherwise
  validated, resolved in the sandbox and passed after its flag.
\<close>

definition profile_flag ::
  "config \<Rightarrow> string \<Rightarrow> ProfileType \<Rightarrow> string option \<Rightarrow> error + string list" where
  "profile_flag cfg flag t profile =
     (case profile of
        None \<Rightarrow> Inr []
      | Some name \<Rightarrow>
          (if name = [] then Inr []
           else (case validateFilename name of
                   Inl e \<Rightarrow> Inl e
                 | Inr u \<Rightarrow>
                     (case resolveSandboxed cfg (path_join [profileDir cfg t, name]) of
                        Inl e \<Rightarrow> Inl e
                      | Inr p \<Rightarrow> Inr [flag, p]))))"

text \<open>The \<open>catch\<close> block of \<open>handleSliceModel\<close>.\<close>

definition slice_failure :: "thrown \<Rightarrow> error" where
  "slice_failure err =
     (let isExeca = (exitCode_prop err \<noteq> None);
          exitCode = (case exitCode_prop err of None \<Rightarrow> None | Some c \<Rightarrow> c);
          stderr = (case stderr_prop err of
                      Some s \<Rightarrow> if isExeca then take 2000 s else []
                    | None \<Rightarrow> [])
      in CliExecutionError
           (''Slicing failed (exit '' @ show_exitCode exitCode @ ''): '' @ message err @
            [newline] @ stderr)
           exitCode)"

text \<open>The \<open>try\<close> block of \<open>handleSliceModel\<close> with its \<open>catch\<close>.\<close>

definition run_slicer ::
  "config \<Rightarrow> json_runtime \<Rightarrow> process_env \<Rightarrow> string \<Rightarrow> slice_args \<Rightarrow> string list \<Rightarrow> world \<Rightarrow>
   (error + tool_result) \<times> world" where
  "run_slicer cfg rt env now args cliArgs w =
     (case execa env (run_process env (ORCA_SLICER_PATH cfg) cliArgs (timeout_ms args)) of
        Inl err \<Rightarrow> (Inl (slice_failure err), w)
      | Inr result \<Rightarrow>
          (case auditLog cfg rt now ''slice_model''
                  [(''input'', JString (input_file args)),
                   (''output'', JString (output_file args)),
                   (''exitCode'', JNumber (Num (of_int (exitCode result))))] w of
             (Inl e, w1) \<Rightarrow> (Inl (slice_failure (thrown_error e)), w1)
           | (Inr u, w1) \<Rightarrow>
               (case JSON_stringify rt
                       (JObject
                         [(''success'', JBool True),
                          (''output_file'', JString (output_file args)),
                          (''stdout'', JString (take 2000 (stdout result))),
                          (''stderr'', JString (take 2000 (stderr_out result)))]) 2 of
                  Inl e \<Rightarrow> (Inl (slice_failure (thrown_error e)), w1)
                | Inr response \<Rightarrow> (Inr \<lparr>isError = False, content_text = response\<rparr>, w1))))"

text \<open>
  What \<open>handleSliceModel\<close> does before the \<open>try\<close> block: it validates and resolves the file
  names, answers the not-found result when the input is missing, and builds the argument
  vector.
\<close>

definition slice_arguments ::
  "config \<Rightarrow> slice_args \<Rightarrow> world \<Rightarrow> error + (tool_result + string list)" where
  "slice_arguments cfg args w =
     (case validateFilename (input_file args) of
        Inl e \<Rightarrow> Inl e
      | Inr u \<Rightarrow>
     (case validateFilename (output_file args) of
        Inl e \<Rightarrow> Inl e
      | Inr u \<Rightarrow>
     (case resolveSandboxed cfg (path_join [WORKDIR cfg, input_file args]) of
        Inl e \<Rightarrow> Inl e
      | Inr inputPath \<Rightarrow>
     (case resolveSandboxed cfg (path_join [WORKDIR cfg, output_file args]) of
        Inl e \<Rightarrow> Inl e
      | Inr outputPath \<Rightarrow>
     (case safeFileExists cfg w inputPath of
        Inl e \<Rightarrow> Inl e
      | Inr found \<Rightarrow>
          (if \<not> found
           then Inr (Inl \<lparr>isError = True,
                           content_text = ''[404 Not Found] Input file not found: '' @
                                          input_file args\<rparr>)
           else
     (case profile_flag cfg ''--load-settings'' Machine (profile_machine args) of
        Inl e \<Rightarrow> Inl e
      | Inr mp \<Rightarrow>
     (case profile_flag cfg ''--load-filaments'' Filament (profile_filament args) of
        Inl e \<Rightarrow> Inl e
      | Inr fp \<Rightarrow>
     (case profile_flag cfg ''--load-process'' Process (profile_process args) of
        Inl e \<Rightarrow> Inl e
      | Inr pp \<Rightarrow>
          Inr (Inr ([''--slice'', inputPath, ''-o'', outputPath] @ mp @ fp @ pp)))))))))))"

definition handleSliceModel ::
  "config \<Rightarrow> json_runtime \<Rightarrow> process_env \<Rightarrow> string \<Rightarrow> slice_args \<Rightarrow> world \<Rightarrow>
   (error + tool_result) \<times> world" where
  "handleSliceModel cfg rt env now args w =
     (case slice_arguments cfg args w of
        Inl e \<Rightarrow> (Inl e, w)
      | Inr (Inl notFound) \<Rightarrow> (Inr notFound, w)
      | Inr (Inr cliArgs) \<Rightarrow>
          run_slicer cfg rt env now args cliArgs (log_stderr cfg Info ''Slicing'' w))"

section \<open>Vocabulary of the properties\<close>

text \<open>
  The character classes of a filename as the specification words them: ASCII letters,
  digits, underscore, hyphen, period, space, written out as alphabets.
\<close>

definition ascii_letters :: string where
  "ascii_letters = ''abcdefghijklmnopqrstuvwxyzABCDEFGHIJKLMNOPQRSTUVWXYZ''"

definition ascii_digits :: string where
  "ascii_digits = ''0123456789''"

definition allowed_class :: "string \<Rightarrow> bool" where
  "allowed_class name =
     (name \<noteq> [] \<and>
      hd name \<in> set (ascii_letters @ ascii_digits @ ''_-'') \<and>
      set (tl name) \<subseteq> set (ascii_letters @ ascii_digits @ ''_-. ''))"

definition forbidden_chars :: "char list" where
  "forbidden_chars = [CHR ''/'', backslash, CHR ''$'', backtick, CHR '';'']"

text \<open>
  A resolved path is \<open>/\<close> followed by its segments joined by \<open>/\<close>; its segments are
  non-empty, have no separator and are neither \<open>.\<close> nor \<open>..\<close>.
\<close>

definition clean_seg :: "string \<Rightarrow> bool" where
  "clean_seg s = (s \<noteq> [] \<and> s \<noteq> ''.'' \<and> s \<noteq> ''..'' \<and> CHR ''/'' \<notin> set s)"

definition abs_path :: "string list \<Rightarrow> string" where
  "abs_path segs = CHR ''/'' # join_with ''/'' segs"

text \<open>
  A path is a descendant of (or equal to) a directory when the directory's segments are
  the first segments of the path.
\<close>

definition is_descendant :: "string \<Rightarrow> string \<Rightarrow> bool" where
  "is_descendant ancestor path = prefix (path_segments ancestor) (path_segments path)"

text \<open>The first of the given segments begins with two periods.\<close>

definition dotdot_led :: "string list \<Rightarrow> bool" where
  "dotdot_led ts = (ts \<noteq> [] \<and> startsWith (hd ts) ''..'')"

text \<open>A configuration for the examples.\<close>

definition example_config :: config where
  "example_config =
     \<lparr>cwd = ''/home/user'', LOG_LEVEL = Info, WORKDIR = ''/work'',
      ORCA_USER_DIR = ''/home/user/.config/OrcaSlicer'',
      ORCA_SLICER_PATH = ''/usr/bin/orca-slicer''\<rparr>"

text \<open>
  A world for the examples: a model and a process profile, no failing path. The runtime
  of the examples prints and parses the documents of the examples. They are objects, so
  a handler never asks this runtime to assign to a property of anything else, and it
  would refuse.
\<close>

definition example_profile_path :: string where
  "example_profile_path = ''/home/user/.config/OrcaSlicer/process/standard_quality.json''"

definition example_tuned_path :: string where
  "example_tuned_path = ''/home/user/.config/OrcaSlicer/process/standard_quality_tuned.json''"

definition example_profile_text :: string where
  "example_profile_text =
     ''{'' @ [dquote] @ ''infill_density'' @ [dquote] @ '': 20, '' @
     [dquote] @ ''infill_pattern'' @ [dquote] @ '': '' @ [dquote] @ ''grid'' @ [dquote] @ ''}''"

definition example_profile :: "(string \<times> js_value) list" where
  "example_profile =
     [(''infill_density'', JNumber (Num 20)), (''infill_pattern'', JString ''grid'')]"

definition example_tuned_text :: string where
  "example_tuned_text =
     ''{'' @ [dquote] @ ''infill_density'' @ [dquote] @ '': 40, '' @
     [dquote] @ ''infill_pattern'' @ [dquote] @ '': '' @ [dquote] @ ''grid'' @ [dquote] @ ''}''"

definition example_tuned :: "(string \<times> js_value) list" where
  "example_tuned =
     [(''infill_density'', JNumber (Num 40)), (''infill_pattern'', JString ''grid'')]"

definition example_runtime :: json_runtime where
  "example_runtime =
     \<lparr>print_json = (\<lambda>indent v.
        if v = JObject example_profile then example_profile_text
        else if v = JObject example_tuned then example_tuned_text
        else ''{}''),
      parse_json = (\<lambda>text.
        if text = example_profile_text then Some (JObject example_profile)
        else if text = example_tuned_text then Some (JObject example_tuned)
        else None),
      assign_property = (\<lambda>data key v.
        Inl (TypeError (''Cannot create property '' @ [squote] @ key @ [squote])))\<rparr>"

definition example_world :: world where
  "example_world =
     \<lparr>files = [(''/work/cube.stl'', ''solid cube''), (example_profile_path, example_profile_text)],
      directories = [''/work'', ''/home/user/.config/OrcaSlicer'',
                     ''/home/user/.config/OrcaSlicer/process''],
      faults = [],
      stderr = []\<rparr>"


text \<open>The two comment lines of the scenario of the metadata parser.\<close>

definition filament_line :: string where
  "filament_line = ''; filament used [g] = 37.5''"

definition layers_line :: string where
  "layers_line = ''; total layers count = 150''"

text \<open>
  A process environment for the examples: the process ends the given way whatever it is
  asked to run, and the error is that of the later versions of execa for the command of
  the examples, whose output has no control character to escape.
\<close>

definition example_command :: string where
  "example_command = ''/usr/bin/orca-slicer --slice /work/cube.stl -o /work/cube.gcode''"

definition example_env :: "process_outcome \<Rightarrow> process_env" where
  "example_env outcome =
     \<lparr>run_process = (\<lambda>file args timeout. outcome),
      short_message = (\<lambda>outcome.
        case outcome of
          Exited code out err \<Rightarrow>
            ''Command failed with exit code '' @ show_int code @ '': '' @ example_command
        | SpawnFailed \<Rightarrow>
            ''Command failed with ENOENT: '' @ example_command @ [newline] @
            ''spawn /usr/bin/orca-slicer ENOENT''
        | TimedOut out err \<Rightarrow>
            ''Command timed out after 300000 milliseconds: '' @ example_command
        | Killed out err \<Rightarrow>
            ''Command was killed with SIGTERM (Termination): '' @ example_command),
      escape_lines = (\<lambda>part. part),
      message_separator = [newline, newline],
      omits_undefined = True\<rparr>"

text \<open>The arguments of the examples.\<close>

definition example_slice_args :: slice_args where
  "example_slice_args =
     \<lparr>input_file = ''cube.stl'', output_file = ''cube.gcode'', profile_machine = None,
      profile_filament = None, profile_process = None, timeout_ms = 300000\<rparr>"

definition example_update_args :: "string \<Rightarrow> update_args" where
  "example_update_args key =
     \<lparr>profile_type = Process, profile_name = ''standard_quality.json'', setting_key = key,
      setting_value = JNumber (Num 40), dry_run = True\<rparr>"

definition example_now :: string where
  "example_now = ''2026-01-01T00:00:00.000Z''"

section \<open>Properties of the filename validator\<close>

lemma safe_first_alphabet_all: "list_all safe_first (ascii_letters @ ascii_digits @ ''_-'')"
  by (simp add: ascii_letters_def ascii_digits_def safe_first_def in_range_def)

lemma safe_rest_alphabet_all: "list_all safe_rest (ascii_letters @ ascii_digits @ ''_-. '')"
  by (simp add: ascii_letters_def ascii_digits_def safe_rest_def in_range_def)

lemma safe_first_alphabet:
  "c \<in> set (ascii_letters @ ascii_digits @ ''_-'') \<Longrightarrow> safe_first c"
  using safe_first_alphabet_all unfolding list_all_iff by blast

lemma safe_rest_alphabet:
  "c \<in> set (ascii_letters @ ascii_digits @ ''_-. '') \<Longrightarrow> safe_rest c"
  using safe_rest_alphabet_all unfolding list_all_iff by blast

lemma safe_first_rest: "safe_first c \<Longrightarrow> safe_rest c"
  by (auto simp: safe_first_def safe_rest_def)

lemma forbidden_all_unsafe: "list_all (\<lambda>c. \<not> safe_rest c) forbidden_chars"
  by (simp add: forbidden_chars_def safe_rest_def in_range_def backslash_def backtick_def)

lemma forbidden_not_safe_rest: "c \<in> set forbidden_chars \<Longrightarrow> \<not> safe_rest c"
  using forbidden_all_unsafe unfolding list_all_iff by blast

lemma SAFE_FILENAME_RE_chars: "SAFE_FILENAME_RE name \<Longrightarrow> c \<in> set name \<Longrightarrow> safe_rest c"
  by (cases name) (auto simp: list_all_iff safe_first_rest)

lemma allowed_class_SAFE: "allowed_class name \<Longrightarrow> SAFE_FILENAME_RE name"
proof (cases name)
  case Nil
  assume "allowed_class name"
  with Nil show ?thesis by (simp add: allowed_class_def)
next
  case (Cons c cs)
  assume a: "allowed_class name"
  from a Cons have "safe_first c"
    using safe_first_alphabet [of c] by (simp add: allowed_class_def)
  moreover from a Cons have "list_all safe_rest cs"
    using safe_rest_alphabet unfolding allowed_class_def list_all_iff by auto
  ultimately show ?thesis using Cons by simp
qed

section \<open>Properties of the path module and of the sandbox\<close>

lemma split_on_not_Nil: "split_on c s \<noteq> []"
  by (induction s) (auto split: list.splits)

lemma split_on_no_sep: "x \<in> set (split_on c s) \<Longrightarrow> c \<notin> set x"
  by (induction s arbitrary: x) (auto split: list.splits if_splits)

lemma split_on_nosep: "c \<notin> set s \<Longrightarrow> split_on c s = [s]"
  by (induction s) auto

lemma split_on_append: "split_on c (a @ c # b) = split_on c a @ split_on c b"
proof (induction a)
  case Nil
  then show ?case by simp
next
  case (Cons x a)
  then show ?case
    using split_on_not_Nil [of c a]
    by (cases "split_on c a") auto
qed

lemma split_on_join:
  "segs \<noteq> [] \<Longrightarrow> \<forall>s \<in> set segs. c \<notin> set s \<Longrightarrow> split_on c (join_with [c] segs) = segs"
proof (induction "[c]" segs rule: join_with.induct)
  case 1
  then show ?case by simp
next
  case (2 s)
  then show ?case by (simp add: split_on_nosep)
next
  case (3 s t ss)
  then show ?case by (simp add: split_on_append split_on_nosep)
qed

lemma normalizeSegs_append:
  "normalizeSegs a res (xs @ ys) = normalizeSegs a (normalizeSegs a res xs) ys"
  by (induction a res xs rule: normalizeSegs.induct) auto

lemma normalizeSegs_clean:
  "list_all clean_seg res \<Longrightarrow> \<forall>s \<in> set xs. CHR ''/'' \<notin> set s \<Longrightarrow>
   list_all clean_seg (normalizeSegs False res xs)"
proof (induction False res xs rule: normalizeSegs.induct)
  case (1 res)
  then show ?case by simp
next
  case (2 res s ss)
  have bl: "list_all clean_seg (butlast res)"
    using "2.prems"(1) by (auto simp: list_all_iff dest: in_set_butlastD)
  show ?case
    using 2 bl by (auto simp: clean_seg_def)
qed

lemma normalizeSegs_id:
  "list_all clean_seg xs \<Longrightarrow> normalizeSegs a res xs = res @ xs"
  by (induction xs arbitrary: res) (auto simp: clean_seg_def)

lemma join_with_Cons: "ss \<noteq> [] \<Longrightarrow> join_with sep (s # ss) = s @ sep @ join_with sep ss"
  by (cases ss) auto

lemma path_segments_abs_path:
  "list_all clean_seg segs \<Longrightarrow> path_segments (abs_path segs) = segs"
proof (cases segs)
  case Nil
  then show ?thesis by (simp add: path_segments_def abs_path_def)
next
  case (Cons s ss)
  assume c: "list_all clean_seg segs"
  then have ns: "\<forall>s \<in> set segs. CHR ''/'' \<notin> set s"
    by (auto simp: list_all_iff clean_seg_def)
  have "split_on CHR ''/'' (join_with ''/'' segs) = segs"
    using split_on_join [of segs "CHR ''/''"] ns Cons by simp
  then have "split_on CHR ''/'' (abs_path segs) = [] # segs"
    by (simp add: abs_path_def)
  moreover have "filter (\<lambda>s. s \<noteq> []) segs = segs"
    using c by (auto simp: list_all_iff clean_seg_def intro: filter_True)
  ultimately show ?thesis by (simp add: path_segments_def)
qed

lemma split_on_abs_path_slash:
  assumes "list_all clean_seg segs"
  shows "normalizeSegs a [] (split_on CHR ''/'' (abs_path segs @ ''/'')) = segs"
proof (cases segs)
  case Nil
  then show ?thesis by (simp add: abs_path_def)
next
  case (Cons s ss)
  from assms have ns: "\<forall>s \<in> set segs. CHR ''/'' \<notin> set s"
    by (auto simp: list_all_iff clean_seg_def)
  have "split_on CHR ''/'' (join_with ''/'' segs @ ''/'') = segs @ [[]]"
    using split_on_append [of "CHR ''/''" "join_with ''/'' segs" "[]"]
      split_on_join [of segs "CHR ''/''"] ns Cons by simp
  then have "split_on CHR ''/'' (abs_path segs @ ''/'') = [] # segs @ [[]]"
    by (simp add: abs_path_def)
  then show ?thesis
    using assms by (simp add: normalizeSegs_append normalizeSegs_id)
qed

lemma resolve_abs_path:
  "list_all clean_seg segs \<Longrightarrow> resolve wd [abs_path segs] = abs_path segs"
proof -
  assume c: "list_all clean_seg segs"
  have "resolveLoop (rev [abs_path segs] @ [wd]) [] = (abs_path segs @ ''/'', True)"
    by (simp add: abs_path_def)
  then show ?thesis
    using split_on_abs_path_slash [OF c, of False]
    by (simp add: resolve_def normalizeString_def abs_path_def)
qed

lemma resolve_is_abs_path:
  assumes "isAbsolute wd"
  shows "\<exists>segs. list_all clean_seg segs \<and> resolve wd [raw] = abs_path segs"
proof -
  have "\<exists>p. resolveLoop (rev [raw] @ [wd]) [] = (p, True)"
    using assms by (simp add: isAbsolute_def)
  then obtain p where p: "resolveLoop (rev [raw] @ [wd]) [] = (p, True)" ..
  let ?segs = "normalizeSegs False [] (split_on CHR ''/'' p)"
  have "list_all clean_seg ?segs"
    using normalizeSegs_clean [of "[]" "split_on CHR ''/'' p"] split_on_no_sep by auto
  moreover have "resolve wd [raw] = abs_path ?segs"
    using p by (simp add: resolve_def normalizeString_def abs_path_def)
  ultimately show ?thesis by blast
qed

lemma join_with_last_nonempty:
  "segs \<noteq> [] \<Longrightarrow> last segs \<noteq> [] \<Longrightarrow> join_with sep segs \<noteq> []"
  by (induction sep segs rule: join_with.induct) auto

lemma last_join_with:
  "segs \<noteq> [] \<Longrightarrow> last segs \<noteq> [] \<Longrightarrow> last (join_with sep segs) = last (last segs)"
proof (induction sep segs rule: join_with.induct)
  case (3 sep s t ss)
  then have "join_with sep (t # ss) \<noteq> []"
    using join_with_last_nonempty [of "t # ss" sep] by simp
  with 3 show ?case by simp
qed simp_all

lemma join_with_eq_Nil: "join_with sep segs = [] \<Longrightarrow> \<forall>s \<in> set segs. s \<noteq> [] \<Longrightarrow> segs = []"
  by (induction sep segs rule: join_with.induct) auto

lemma normalize_path_abs_path:
  assumes "list_all clean_seg segs"
  shows "normalize_path (abs_path segs) = abs_path segs"
proof (cases segs)
  case Nil
  then show ?thesis by (simp add: normalize_path_def abs_path_def normalizeString_def)
next
  case (Cons s ss)
  from assms have ns: "\<forall>s \<in> set segs. CHR ''/'' \<notin> set s" and ne: "\<forall>s \<in> set segs. s \<noteq> []"
    by (auto simp: list_all_iff clean_seg_def)
  have sp: "split_on CHR ''/'' (abs_path segs) = [] # segs"
    using split_on_join [of segs "CHR ''/''"] ns Cons by (simp add: abs_path_def)
  have nz: "normalizeString (abs_path segs) False = join_with ''/'' segs"
    using assms sp by (simp add: normalizeString_def normalizeSegs_id)
  have jne: "join_with ''/'' segs \<noteq> []"
    using join_with_eq_Nil [of "''/''" segs] ne Cons by auto
  have "last segs \<in> set segs" using Cons by simp
  then have l: "last segs \<noteq> []" "CHR ''/'' \<notin> set (last segs)"
    using ns ne by auto
  then have "last (last segs) \<in> set (last segs)" by simp
  with l have "last (last segs) \<noteq> CHR ''/''" by metis
  then have "last (join_with ''/'' segs) \<noteq> CHR ''/''"
    using last_join_with [of segs "''/''"] l Cons by simp
  then have "last (abs_path segs) \<noteq> CHR ''/''"
    using jne by (simp add: abs_path_def)
  then show ?thesis
    using nz jne by (simp add: normalize_path_def Let_def) (simp add: abs_path_def)
qed

lemma strip_common_same: "strip_common xs xs = ([], [])"
  by (induction xs) auto

lemma strip_common_prefix:
  "strip_common xs ys = (fs, ts) \<Longrightarrow> (fs = [] \<longleftrightarrow> prefix xs ys)"
  by (induction xs ys rule: strip_common.induct) (auto split: if_splits)

lemma strip_common_drop:
  "strip_common xs ys = ([], ts) \<Longrightarrow> ts = drop (length xs) ys"
  by (induction xs ys rule: strip_common.induct) (auto split: if_splits)

lemma strip_common_clean:
  "strip_common xs ys = (fs, ts) \<Longrightarrow> list_all P ys \<Longrightarrow> list_all P ts"
  by (induction xs ys rule: strip_common.induct) (auto split: if_splits)

lemma relative_abs_path:
  assumes "list_all clean_seg rs" and "list_all clean_seg ns"
  shows "relative wd (abs_path rs) (abs_path ns) =
           (case strip_common rs ns of
              (fs, ts) \<Rightarrow> join_with ''/'' (replicate (length fs) ''..'' @ ts))"
proof (cases "abs_path rs = abs_path ns")
  case True
  then have "path_segments (abs_path rs) = path_segments (abs_path ns)" by simp
  then have "rs = ns" using assms by (simp add: path_segments_abs_path)
  then show ?thesis using True by (simp add: relative_def strip_common_same)
next
  case False
  then show ?thesis
    using assms by (simp add: relative_def resolve_abs_path path_segments_abs_path)
qed

lemma startsWith_ups:
  "0 < n \<Longrightarrow> startsWith (join_with ''/'' (replicate n ''..'' @ ts)) ''..''"
proof -
  assume "0 < n"
  then obtain m where n: "n = Suc m" by (cases n) auto
  show ?thesis
  proof (cases "replicate m ''..'' @ ts")
    case Nil
    then show ?thesis using n by (simp add: startsWith_def)
  next
    case (Cons a list)
    then have "join_with ''/'' (''..'' # replicate m ''..'' @ ts) =
               ''..'' @ ''/'' @ join_with ''/'' (replicate m ''..'' @ ts)"
      using join_with_Cons [of "replicate m ''..'' @ ts" "''/''" "''..''"] by simp
    then show ?thesis using n by (simp add: startsWith_def)
  qed
qed

lemma startsWith_join:
  assumes "list_all clean_seg ts"
  shows "startsWith (join_with ''/'' ts) ''..'' \<longleftrightarrow> dotdot_led ts"
proof (cases ts)
  case Nil
  then show ?thesis by (simp add: startsWith_def dotdot_led_def)
next
  case (Cons t ss)
  with assms have t: "t \<noteq> []" "CHR ''/'' \<notin> set t"
    by (auto simp: clean_seg_def)
  show ?thesis
  proof (cases ss)
    case Nil
    with Cons show ?thesis by (simp add: dotdot_led_def)
  next
    case (Cons u us)
    then have j: "join_with ''/'' ts = t @ ''/'' @ join_with ''/'' ss"
      using \<open>ts = t # ss\<close> by simp
    show ?thesis
    proof (cases t)
      case Nil
      with t show ?thesis by simp
    next
      case c1: (Cons a r)
      show ?thesis
      proof (cases r)
        case Nil
        with c1 j \<open>ts = t # ss\<close> show ?thesis
          by (simp add: startsWith_def dotdot_led_def)
      next
        case (Cons b r')
        with c1 j \<open>ts = t # ss\<close> show ?thesis
          by (simp add: startsWith_def dotdot_led_def)
      qed
    qed
  qed
qed

lemma not_isAbsolute_join_aux:
  "list_all (\<lambda>s. s \<noteq> [] \<and> hd s \<noteq> CHR ''/'') xs \<Longrightarrow> \<not> isAbsolute (join_with ''/'' xs)"
  by (induction "''/''" xs rule: join_with.induct) (simp_all add: isAbsolute_def)

lemma clean_seg_hd: "clean_seg s \<Longrightarrow> s \<noteq> [] \<and> hd s \<noteq> CHR ''/''"
proof -
  assume c: "clean_seg s"
  then have "s \<noteq> []" by (simp add: clean_seg_def)
  then have "hd s \<in> set s" by simp
  moreover from c have "CHR ''/'' \<notin> set s" by (simp add: clean_seg_def)
  ultimately have "hd s \<noteq> CHR ''/''" by metis
  with \<open>s \<noteq> []\<close> show ?thesis by simp
qed

lemma not_isAbsolute_join:
  assumes "list_all clean_seg ts"
  shows "\<not> isAbsolute (join_with ''/'' (replicate n ''..'' @ ts))"
proof -
  have "list_all (\<lambda>s. s \<noteq> [] \<and> hd s \<noteq> CHR ''/'') (replicate n ''..'')"
    by (induction n) simp_all
  moreover have "list_all (\<lambda>s. s \<noteq> [] \<and> hd s \<noteq> CHR ''/'') ts"
    using assms clean_seg_hd unfolding list_all_iff by blast
  ultimately have "list_all (\<lambda>s. s \<noteq> [] \<and> hd s \<noteq> CHR ''/'') (replicate n ''..'' @ ts)"
    by simp
  then show ?thesis by (rule not_isAbsolute_join_aux)
qed

lemma inside_root_abs_path:
  assumes "list_all clean_seg rs" and "list_all clean_seg ns"
  shows "inside_root cfg (abs_path ns) (abs_path rs) \<longleftrightarrow>
           prefix rs ns \<and> \<not> dotdot_led (drop (length rs) ns)"
proof -
  obtain fs ts where st: "strip_common rs ns = (fs, ts)"
    by (cases "strip_common rs ns") auto
  have rel: "relative (cwd cfg) (abs_path rs) (abs_path ns) =
               join_with ''/'' (replicate (length fs) ''..'' @ ts)"
    using relative_abs_path [OF assms, of "cwd cfg"] st by simp
  have cts: "list_all clean_seg ts"
    using strip_common_clean [OF st assms(2)] .
  show ?thesis
  proof (cases "fs = []")
    case True
    then have pre: "prefix rs ns" and ts: "ts = drop (length rs) ns"
      using strip_common_prefix [OF st] strip_common_drop [of rs ns ts] st by auto
    have "\<not> isAbsolute (join_with ''/'' ts)"
      using not_isAbsolute_join [OF cts, of 0] by simp
    then show ?thesis
      using True rel pre ts startsWith_join [OF cts]
      by (simp add: inside_root_def)
  next
    case False
    then have "\<not> prefix rs ns"
      using strip_common_prefix [OF st] by simp
    moreover have "startsWith (join_with ''/'' (replicate (length fs) ''..'' @ ts)) ''..''"
      using False by (simp add: startsWith_ups)
    ultimately show ?thesis
      using rel by (simp add: inside_root_def)
  qed
qed

lemma getAllowedRoots_abs:
  assumes "isAbsolute (cwd cfg)"
  shows "\<exists>rs1 rs2. list_all clean_seg rs1 \<and> list_all clean_seg rs2 \<and>
           getAllowedRoots cfg = [abs_path rs1, abs_path rs2]"
  using resolve_is_abs_path [OF assms, of "WORKDIR cfg"]
    resolve_is_abs_path [OF assms, of "ORCA_USER_DIR cfg"]
  by (auto simp: getAllowedRoots_def)

lemma allowed_root_abs:
  assumes "isAbsolute (cwd cfg)" and "r \<in> set (getAllowedRoots cfg)"
  shows "\<exists>rs. list_all clean_seg rs \<and> r = abs_path rs"
  using getAllowedRoots_abs [OF assms(1)] assms(2) by auto

lemma inside_root_iff:
  assumes "isAbsolute (cwd cfg)" and "r \<in> set (getAllowedRoots cfg)"
    and "list_all clean_seg ns"
  shows "inside_root cfg (abs_path ns) r \<longleftrightarrow>
           is_descendant r (abs_path ns) \<and>
           \<not> dotdot_led (drop (length (path_segments r)) ns)"
proof -
  obtain rs where rs: "list_all clean_seg rs" "r = abs_path rs"
    using allowed_root_abs [OF assms(1,2)] by blast
  show ?thesis
    using inside_root_abs_path [OF rs(1) assms(3), of cfg] rs assms(3)
    by (simp add: is_descendant_def path_segments_abs_path)
qed

lemma resolveSandboxed_unfold:
  assumes "isAbsolute (cwd cfg)"
  shows "resolveSandboxed cfg raw =
           (if list_ex (inside_root cfg (resolve (cwd cfg) [raw])) (getAllowedRoots cfg)
            then Inr (resolve (cwd cfg) [raw])
            else Inl (SandboxError (access_denied_message raw (resolve (cwd cfg) [raw])
                   (getAllowedRoots cfg))))"
proof -
  obtain ns where "list_all clean_seg ns" "resolve (cwd cfg) [raw] = abs_path ns"
    using resolve_is_abs_path [OF assms] by blast
  then have "normalize_path (resolve (cwd cfg) [raw]) = resolve (cwd cfg) [raw]"
    by (simp add: normalize_path_abs_path)
  then show ?thesis by (simp add: resolveSandboxed_def Let_def)
qed

lemma resolveSandboxed_sound:
  assumes "isAbsolute (cwd cfg)" and "resolveSandboxed cfg raw = Inr q"
  shows "q = resolve (cwd cfg) [raw] \<and> (\<exists>r \<in> set (getAllowedRoots cfg). is_descendant r q)"
proof -
  obtain ns where ns: "list_all clean_seg ns" "resolve (cwd cfg) [raw] = abs_path ns"
    using resolve_is_abs_path [OF assms(1)] by blast
  from assms(2) have q: "q = resolve (cwd cfg) [raw]"
    and ex: "list_ex (inside_root cfg (resolve (cwd cfg) [raw])) (getAllowedRoots cfg)"
    unfolding resolveSandboxed_unfold [OF assms(1)] by (auto split: if_splits)
  from ex obtain r where r: "r \<in> set (getAllowedRoots cfg)" "inside_root cfg (abs_path ns) r"
    using ns(2) by (auto simp: list_ex_iff)
  then have "is_descendant r (abs_path ns)"
    using inside_root_iff [OF assms(1) r(1) ns(1)] by simp
  with q r(1) ns(2) show ?thesis by auto
qed

lemma resolveSandboxed_escape:
  assumes "isAbsolute (cwd cfg)"
    and "\<forall>r \<in> set (getAllowedRoots cfg). \<not> is_descendant r (resolve (cwd cfg) [raw])"
  shows "resolveSandboxed cfg raw =
           Inl (SandboxError (access_denied_message raw (resolve (cwd cfg) [raw])
             (getAllowedRoots cfg)))"
proof -
  obtain ns where ns: "list_all clean_seg ns" "resolve (cwd cfg) [raw] = abs_path ns"
    using resolve_is_abs_path [OF assms(1)] by blast
  have "\<not> inside_root cfg (abs_path ns) r" if "r \<in> set (getAllowedRoots cfg)" for r
    using inside_root_iff [OF assms(1) that ns(1)] assms(2) that ns(2) by simp
  then have "\<not> list_ex (inside_root cfg (resolve (cwd cfg) [raw])) (getAllowedRoots cfg)"
    using ns(2) by (auto simp: list_ex_iff)
  then show ?thesis
    unfolding resolveSandboxed_unfold [OF assms(1)] by simp
qed

lemma resolveSandboxed_inside:
  assumes "isAbsolute (cwd cfg)" and "r \<in> set (getAllowedRoots cfg)"
    and "is_descendant r (resolve (cwd cfg) [raw])"
    and "\<not> dotdot_led (drop (length (path_segments r)) (path_segments (resolve (cwd cfg) [raw])))"
  shows "resolveSandboxed cfg raw = Inr (resolve (cwd cfg) [raw])"
proof -
  obtain ns where ns: "list_all clean_seg ns" "resolve (cwd cfg) [raw] = abs_path ns"
    using resolve_is_abs_path [OF assms(1)] by blast
  have "inside_root cfg (abs_path ns) r"
    using inside_root_iff [OF assms(1,2) ns(1)] assms(3,4) ns
    by (simp add: path_segments_abs_path)
  then have "list_ex (inside_root cfg (resolve (cwd cfg) [raw])) (getAllowedRoots cfg)"
    using assms(2) ns(2) by (auto simp: list_ex_iff)
  then show ?thesis
    unfolding resolveSandboxed_unfold [OF assms(1)] by simp
qed

lemma example_roots:
  "getAllowedRoots example_config = [''/work'', ''/home/user/.config/OrcaSlicer'']"
  by (simp add: getAllowedRoots_def example_config_def resolve_def normalizeString_def)

lemma example_resolve: "resolve (cwd example_config) [''/work/..cache''] = ''/work/..cache''"
  by (simp add: example_config_def resolve_def normalizeString_def)

lemma SAFE_FILENAME_RE_clean:
  assumes "SAFE_FILENAME_RE name"
  shows "clean_seg name \<and> \<not> startsWith name ''..''"
proof -
  from assms obtain c cs where n: "name = c # cs" and c: "safe_first c"
    by (cases name) auto
  have "\<not> safe_first CHR ''.''" by (simp add: safe_first_def in_range_def)
  with c have cd: "c \<noteq> CHR ''.''" by metis
  have "\<not> safe_rest CHR ''/''" by (simp add: safe_rest_def in_range_def)
  then have "CHR ''/'' \<notin> set name"
    using SAFE_FILENAME_RE_chars [OF assms] by metis
  with n cd show ?thesis by (simp add: clean_seg_def startsWith_def)
qed

lemma normalizeSegs_split_abs_path:
  assumes "list_all clean_seg rs"
  shows "normalizeSegs a [] (split_on CHR ''/'' (abs_path rs)) = rs"
proof (cases rs)
  case Nil
  then show ?thesis by (simp add: abs_path_def)
next
  case (Cons s ss)
  from assms have ns: "\<forall>s \<in> set rs. CHR ''/'' \<notin> set s"
    by (auto simp: list_all_iff clean_seg_def)
  have "split_on CHR ''/'' (abs_path rs) = [] # rs"
    using split_on_join [of rs "CHR ''/''"] ns Cons by (simp add: abs_path_def)
  then show ?thesis using assms by (simp add: normalizeSegs_id)
qed

lemma path_join_child:
  assumes "list_all clean_seg rs" and "clean_seg name"
  shows "path_join [abs_path rs, name] = abs_path (rs @ [name])"
proof -
  have ne: "name \<noteq> []" and ns: "CHR ''/'' \<notin> set name"
    using assms(2) by (simp_all add: clean_seg_def)
  have sp: "split_on CHR ''/'' (abs_path rs @ CHR ''/'' # name) =
              split_on CHR ''/'' (abs_path rs) @ [name]"
    using ns by (simp add: split_on_append split_on_nosep)
  have nz: "normalizeSegs False [] (split_on CHR ''/'' (abs_path rs @ CHR ''/'' # name)) =
              rs @ [name]"
    using assms(1) sp normalizeSegs_id [of "[name]" False rs] assms(2)
    by (simp add: normalizeSegs_append normalizeSegs_split_abs_path)
  have jne: "join_with ''/'' (rs @ [name]) \<noteq> []"
    using join_with_last_nonempty [of "rs @ [name]" "''/''"] ne by simp
  have "last name \<in> set name" using ne by simp
  with ns have ln: "last name \<noteq> CHR ''/''" by metis
  have hd: "hd (abs_path rs @ CHR ''/'' # name) = CHR ''/''"
    by (simp add: abs_path_def)
  have "normalize_path (abs_path rs @ CHR ''/'' # name) = abs_path (rs @ [name])"
    using nz jne ln ne hd
    by (simp add: normalize_path_def Let_def normalizeString_def) (simp add: abs_path_def)
  moreover have "path_join [abs_path rs, name] = normalize_path (abs_path rs @ CHR ''/'' # name)"
    using ne by (simp add: path_join_def abs_path_def)
  ultimately show ?thesis by simp
qed

lemma sublist_join_with: "r \<in> set rs \<Longrightarrow> sublist r (join_with sep rs)"
proof (induction sep rs rule: join_with.induct)
  case (1 sep)
  then show ?case by simp
next
  case (2 sep s)
  then show ?case by simp
next
  case (3 sep s t ss)
  show ?case
  proof (cases "r = s")
    case True
    then show ?thesis by simp
  next
    case False
    with 3 have "sublist r (join_with sep (t # ss))" by simp
    then obtain ps qs where "join_with sep (t # ss) = ps @ r @ qs"
      unfolding sublist_def by blast
    then have "s @ sep @ join_with sep (t # ss) = (s @ sep @ ps) @ r @ qs"
      by simp
    then show ?thesis
      unfolding sublist_def by (simp del: append_assoc) blast
  qed
qed

text \<open>
  The access-denied message contains the raw input, the resolved form and every permitted
  root.
\<close>

lemma access_denied_message_mentions:
  "sublist raw (access_denied_message raw normalised roots) \<and>
   sublist normalised (access_denied_message raw normalised roots) \<and>
   (\<forall>r \<in> set roots. sublist r (access_denied_message raw normalised roots))"
proof (intro conjI ballI)
  have "access_denied_message raw normalised roots =
          (''Access denied: path '' @ [dquote]) @ raw @
          ([dquote] @ '' resolves to '' @ [dquote] @ normalised @ [dquote] @
           '' which is outside the allowed directories: '' @ join_with '', '' roots)"
    by (simp add: access_denied_message_def)
  then show "sublist raw (access_denied_message raw normalised roots)"
    unfolding sublist_def by blast
  have "access_denied_message raw normalised roots =
          (''Access denied: path '' @ [dquote] @ raw @ [dquote] @ '' resolves to '' @
           [dquote]) @ normalised @
          ([dquote] @ '' which is outside the allowed directories: '' @
           join_with '', '' roots)"
    by (simp add: access_denied_message_def)
  then show "sublist normalised (access_denied_message raw normalised roots)"
    unfolding sublist_def by blast
next
  fix r assume "r \<in> set roots"
  then have "sublist r (join_with '', '' roots)" by (rule sublist_join_with)
  then obtain ps ss where j: "join_with '', '' roots = ps @ r @ ss"
    unfolding sublist_def by blast
  have "access_denied_message raw normalised roots =
          (''Access denied: path '' @ [dquote] @ raw @ [dquote] @ '' resolves to '' @
           [dquote] @ normalised @ [dquote] @
           '' which is outside the allowed directories: '' @ ps) @ r @ ss"
    by (simp add: access_denied_message_def j)
  then show "sublist r (access_denied_message raw normalised roots)"
    unfolding sublist_def by blast
qed

lemma child_of_root_accepted:
  assumes "isAbsolute (cwd cfg)" and "r \<in> set (getAllowedRoots cfg)"
    and "SAFE_FILENAME_RE name"
  shows "resolveSandboxed cfg (path_join [r, name]) = Inr (path_join [r, name]) \<and>
         path_segments (path_join [r, name]) = path_segments r @ [name]"
proof -
  obtain rs where rs: "list_all clean_seg rs" "r = abs_path rs"
    using allowed_root_abs [OF assms(1,2)] by blast
  have cn: "clean_seg name" and nd: "\<not> startsWith name ''..''"
    using SAFE_FILENAME_RE_clean [OF assms(3)] by simp_all
  have c: "list_all clean_seg (rs @ [name])"
    using rs(1) cn by simp
  have j: "path_join [r, name] = abs_path (rs @ [name])"
    using path_join_child [OF rs(1) cn] rs(2) by simp
  have res: "resolve (cwd cfg) [path_join [r, name]] = abs_path (rs @ [name])"
    using j resolve_abs_path [OF c] by simp
  have segs: "path_segments (path_join [r, name]) = path_segments r @ [name]"
    using j c rs by (simp add: path_segments_abs_path)
  have desc: "is_descendant r (resolve (cwd cfg) [path_join [r, name]])"
    using res c rs by (simp add: is_descendant_def path_segments_abs_path)
  have "\<not> dotdot_led (drop (length (path_segments r))
          (path_segments (resolve (cwd cfg) [path_join [r, name]])))"
    using res c rs nd by (simp add: path_segments_abs_path dotdot_led_def)
  then have "resolveSandboxed cfg (path_join [r, name]) =
               Inr (resolve (cwd cfg) [path_join [r, name]])"
    using resolveSandboxed_inside [OF assms(1,2) desc] by simp
  with res j segs show ?thesis by simp
qed

section \<open>Properties of the file operations and of JSON values\<close>

lemma example_resolve_etc: "resolve (cwd example_config) [''/etc/passwd''] = ''/etc/passwd''"
  by (simp add: example_config_def resolve_def normalizeString_def)

lemma resolveSandboxed_error:
  "resolveSandboxed cfg raw = Inl e \<Longrightarrow> \<exists>msg. e = SandboxError msg"
  by (auto simp: resolveSandboxed_def Let_def split: if_splits)

lemma map_of_insert_index:
  "map_of (insert_index key v props) k' = (if k' = key then Some v else map_of props k')"
  by (induction props) auto

lemma map_of_js_define:
  "map_of (js_define props key v) k' = (if k' = key then Some v else map_of props k')"
  by (simp add: js_define_def map_of_insert_index update_conv)

lemma set_insert_index: "set (insert_index key v props) = insert (key, v) (set props)"
  by (induction props) (auto split: if_splits)

lemma fst_set_insert_index:
  "fst ` set (insert_index key v props) = insert key (fst ` set props)"
  by (simp add: set_insert_index)

lemma distinct_insert_index:
  "key \<notin> fst ` set props \<Longrightarrow> distinct (map fst props) \<Longrightarrow>
   distinct (map fst (insert_index key v props))"
proof (induction props)
  case Nil
  then show ?case by simp
next
  case (Cons p props)
  obtain k x where p: "p = (k, x)" by (cases p)
  from Cons.prems have a: "key \<noteq> k" "key \<notin> fst ` set props" "k \<notin> fst ` set props"
    "distinct (map fst props)"
    by (auto simp: p)
  have "distinct (map fst (insert_index key v props))"
    using a by (intro Cons.IH)
  moreover have "k \<notin> fst ` set (insert_index key v props)"
    using a by (simp add: fst_set_insert_index)
  ultimately show ?case
    using a by (simp add: p)
qed

lemma distinct_js_define:
  "distinct (map fst props) \<Longrightarrow> distinct (map fst (js_define props key v))"
  by (simp add: js_define_def distinct_update distinct_insert_index map_of_eq_None_iff)

lemma has_bigint_update:
  "list_ex has_bigint (map snd (AList.update k v al)) \<Longrightarrow>
   has_bigint v \<or> list_ex has_bigint (map snd al)"
  by (induction al) (auto split: if_splits)

lemma has_bigint_define:
  "list_ex has_bigint (map snd (js_define props k v)) \<Longrightarrow>
   has_bigint v \<or> list_ex has_bigint (map snd props)"
  using has_bigint_update [of k v props]
  by (auto simp: js_define_def set_insert_index list_ex_iff split: if_splits)

lemma has_bigint_spread:
  "list_ex has_bigint (map snd (js_spread a b)) \<Longrightarrow>
   list_ex has_bigint (map snd a) \<or> list_ex has_bigint (map snd b)"
  unfolding js_spread_def
proof (induction b arbitrary: a)
  case Nil
  then show ?case by simp
next
  case (Cons p b)
  obtain k v where p: "p = (k, v)" by (cases p)
  from Cons.prems have "list_ex has_bigint (map snd (fold (\<lambda>(k, v) acc. js_define acc k v) b (js_define a k v)))"
    by (simp add: p)
  then have "list_ex has_bigint (map snd (js_define a k v)) \<or> list_ex has_bigint (map snd b)"
    by (rule Cons.IH)
  then show ?case
    using has_bigint_define [of a k v] by (auto simp: p)
qed

lemma auditLog_serialisable:
  assumes "\<not> has_bigint (JObject details)"
  shows "fst (auditLog cfg rt now action details w) = Inr () \<and>
         (map_of (faults w) (resolve (cwd cfg) [WORKDIR cfg, AUDIT_LOG_FILENAME]) \<noteq> None \<longrightarrow>
            snd (auditLog cfg rt now action details w) =
              w\<lparr>stderr := stderr w @ [(Error, ''Failed to write audit log'')]\<rparr>)"
proof -
  have "\<not> has_bigint (JObject (js_spread [(''ts'', JString now), (''action'', JString action)] details))"
    using assms has_bigint_spread [of "[(''ts'', JString now), (''action'', JString action)]" details]
    by auto
  moreover have "\<not> 2 < LEVEL_PRIORITY (LOG_LEVEL cfg)"
    by (cases "LOG_LEVEL cfg") simp_all
  ultimately show ?thesis
    by (auto simp: auditLog_def JSON_stringify_def appendFile_def log_stderr_def Let_def
        split: option.splits)
qed

section \<open>Properties of the G-code metadata parser\<close>

lemma process_line_empty: "process_line meta [] = meta"
  by (simp add: process_line_def trim_def startsWith_def)

lemma parseGcodeMetadata_empty: "parseGcodeMetadata [] = []"
  by (simp add: parseGcodeMetadata_def process_line_empty)

lemma distinct_js_set: "distinct (map fst props) \<Longrightarrow> distinct (map fst (js_set props key v))"
  by (simp add: js_set_def distinct_js_define)

lemma process_line_cases:
  "process_line meta line = meta \<or> (\<exists>key v. process_line meta line = js_set meta key v)"
  unfolding process_line_def Let_def
  by (simp split: option.split prod.split) blast

lemma process_line_distinct:
  "distinct (map fst meta) \<Longrightarrow> distinct (map fst (process_line meta line))"
  using process_line_cases [of meta line] distinct_js_set by (metis (no_types))

lemma foldl_process_line_distinct:
  "distinct (map fst meta) \<Longrightarrow> distinct (map fst (foldl process_line meta ls))"
  by (induction ls arbitrary: meta) (simp_all add: process_line_distinct)

lemma parseGcodeMetadata_distinct: "distinct (map fst (parseGcodeMetadata gcode))"
  by (simp add: parseGcodeMetadata_def Let_def foldl_process_line_distinct)

lemma filament_line_body: "trim (drop (Suc 0) (trim filament_line)) = ''filament used [g] = 37.5''"
  by (simp add: filament_line_def trim_def isSpace_def)

lemma layers_line_body: "trim (drop (Suc 0) (trim layers_line)) = ''total layers count = 150''"
  by (simp add: layers_line_def trim_def isSpace_def)

lemma filament_line_matches:
  "timeMatch ''filament used [g] = 37.5'' = None"
  "filMmMatch ''filament used [g] = 37.5'' = None"
  "filGMatch ''filament used [g] = 37.5'' = Some ''37.5''"
  by (simp_all add: timeMatch_def filMmMatch_def filGMatch_def lit_ci_def lit_def spaces_def
      capture_run_def isDigitOrDot_def isDigit_def in_range_def isSpace_def toUpperCase_def)

lemma layers_line_matches:
  "timeMatch ''total layers count = 150'' = None"
  "filMmMatch ''total layers count = 150'' = None"
  "filGMatch ''total layers count = 150'' = None"
  "costMatch ''total layers count = 150'' = None"
  "layerMatch ''total layers count = 150'' = Some ''150''"
  by (simp_all add: timeMatch_def filMmMatch_def filGMatch_def costMatch_def layerMatch_def
      lit_ci_def lit_def spaces_def
      capture_run_def isDigitOrDot_def isDigit_def in_range_def isSpace_def toUpperCase_def)

lemma parseFloat_example: "parseFloat ''37.5'' = Num 37.5"
  by (simp add: parseFloat_def isDigit_def in_range_def digits_value_def digit_value_def)

lemma parseInt_example: "parseInt ''150'' = Num 150"
  by (simp add: parseInt_def isDigit_def in_range_def digits_value_def digit_value_def)

lemma process_filament_line:
  "process_line meta filament_line = js_set meta ''filamentUsedG'' (JNumber (Num 37.5))"
proof -
  have "startsWith (trim filament_line) '';''"
    by (simp add: filament_line_def trim_def isSpace_def startsWith_def)
  then show ?thesis
    by (simp add: process_line_def Let_def filament_line_body filament_line_matches parseFloat_example)
qed

lemma process_layers_line:
  "process_line meta layers_line = js_set meta ''layerCount'' (JNumber (Num 150))"
proof -
  have "startsWith (trim layers_line) '';''"
    by (simp add: layers_line_def trim_def isSpace_def startsWith_def)
  then show ?thesis
    by (simp add: process_line_def Let_def layers_line_body layers_line_matches parseInt_example)
qed

lemma js_get_js_set_same:
  "key \<noteq> ''__proto__'' \<Longrightarrow> js_get (js_set props key v) key = v"
  by (simp add: js_get_def js_set_def map_of_js_define)

lemma js_get_js_set_other:
  "key \<noteq> key' \<Longrightarrow> js_get (js_set props key' v) key = js_get props key"
  by (simp add: js_get_def js_set_def map_of_js_define)

lemma tail_of_long_text:
  assumes "length s \<le> n"
  shows "drop (length (p @ s) - n) (p @ s) = drop (length p - (n - length s)) p @ s"
proof -
  have a: "length (p @ s) - n = length p - (n - length s)"
    using assms by simp
  have b: "length p - (n - length s) - length p = 0" by arith
  show ?thesis
    unfolding a drop_append b by simp
qed

lemma last_two_lines:
  assumes "p = [] \<or> last p = c" and "c \<notin> set l1" and "c \<notin> set l2"
  shows "\<exists>ls. split_on c (p @ l1 @ [c] @ l2) = ls @ [l1, l2]"
proof (cases "p = []")
  case True
  have "split_on c (l1 @ c # l2) = [l1, l2]"
    using assms(2,3) by (simp add: split_on_append split_on_nosep)
  with True show ?thesis by simp
next
  case False
  then obtain q where q: "p = q @ [c]"
    using assms(1) by (metis append_butlast_last_id)
  have "split_on c (q @ c # (l1 @ c # l2)) = split_on c q @ [l1, l2]"
    using assms(2,3) by (simp add: split_on_append split_on_nosep)
  then have "split_on c (p @ l1 @ [c] @ l2) = split_on c q @ [l1, l2]"
    by (simp add: q)
  then show ?thesis by blast
qed

lemma process_line_generic:
  assumes "startsWith (trim line) '';''"
    and "timeMatch (trim (drop 1 (trim line))) = None"
    and "filMmMatch (trim (drop 1 (trim line))) = None"
    and "filGMatch (trim (drop 1 (trim line))) = None"
    and "costMatch (trim (drop 1 (trim line))) = None"
    and "layerMatch (trim (drop 1 (trim line))) = None"
    and "kvMatch (trim (drop 1 (trim line))) = Some (k, v)"
  shows "process_line meta line =
           (if js_in (normalize_key k) meta then meta
            else js_set meta (normalize_key k) (JString (trim v)))"
  using assms by (simp add: process_line_def Let_def)

lemma js_in_own:
  "key \<notin> set Object_prototype_keys \<Longrightarrow> js_in key meta \<longleftrightarrow> map_of meta key \<noteq> None"
  by (simp add: js_in_def)

lemma first_generic_key_wins_example:
  "parseGcodeMetadata (''; layer height = 0.2'' @ [newline] @ ''; Layer  Height = 0.3'') =
     [(''layer_height'', JString ''0.2'')]"
  by code_simp

section \<open>Properties of the handlers\<close>

lemma log_stderr_files [simp]: "files (log_stderr cfg level msg w) = files w"
  by (simp add: log_stderr_def)

lemma log_stderr_faults [simp]: "faults (log_stderr cfg level msg w) = faults w"
  by (simp add: log_stderr_def)

lemma log_stderr_directories [simp]: "directories (log_stderr cfg level msg w) = directories w"
  by (simp add: log_stderr_def)

lemma auditLog_other_files:
  assumes "p \<noteq> resolve (cwd cfg) [WORKDIR cfg, AUDIT_LOG_FILENAME]"
  shows "map_of (files (snd (auditLog cfg rt now action details w))) p = map_of (files w) p"
  using assms
  by (auto simp: auditLog_def Let_def appendFile_def update_conv
      split: sum.splits option.splits prod.splits)

lemma has_bigint_js_set:
  "\<not> has_bigint v \<Longrightarrow> \<not> has_bigint (JObject props) \<Longrightarrow> \<not> has_bigint (JObject (js_set props key v))"
  using has_bigint_define [of props key v] by (auto simp: js_set_def)

lemma has_bigint_js_get:
  "\<not> has_bigint (JObject props) \<Longrightarrow> \<not> has_bigint (js_get props key)"
proof -
  assume a: "\<not> has_bigint (JObject props)"
  show ?thesis
  proof (cases "map_of props key")
    case None
    then show ?thesis by (simp add: js_get_def)
  next
    case (Some v)
    then have "(key, v) \<in> set props" by (rule map_of_SomeD)
    then have "v \<in> set (map snd props)" by force
    with a have "\<not> has_bigint v" by (auto simp: list_ex_iff)
    with Some show ?thesis by (simp add: js_get_def)
  qed
qed

lemma handleUpdateProfileSetting_writes:
  assumes rp: "readProfile cfg rt w (profile_type args) (profile_name args) = Inr (JObject props)"
    and tn: "targetName = (if dry_run args then tuned_name (profile_name args)
                           else profile_name args)"
    and rs: "resolveSandboxed cfg (path_join [profileDir cfg (profile_type args), targetName]) =
               Inr target"
    and nf: "map_of (faults w) target = None"
    and nodir: "target \<notin> set (directories w)"
    and nb: "\<not> has_bigint (setting_value args)" "\<not> has_bigint (JObject props)"
  shows "\<not> isl (fst (handleUpdateProfileSetting cfg rt now args w)) \<and>
         (target \<noteq> resolve (cwd cfg) [WORKDIR cfg, AUDIT_LOG_FILENAME] \<longrightarrow>
            map_of (files (snd (handleUpdateProfileSetting cfg rt now args w))) target =
              Some (print_json rt 2
                (JObject (js_set props (setting_key args) (setting_value args))))) \<and>
         (\<forall>p. p \<noteq> target \<and> p \<noteq> resolve (cwd cfg) [WORKDIR cfg, AUDIT_LOG_FILENAME] \<longrightarrow>
            map_of (files (snd (handleUpdateProfileSetting cfg rt now args w))) p =
              map_of (files w) p)"
proof -
  let ?data = "js_set props (setting_key args) (setting_value args)"
  let ?old = "js_get props (setting_key args)"
  let ?text = "print_json rt 2 (JObject ?data)"
  let ?w1 = "log_stderr cfg Info ''File written''
               (w\<lparr>files := AList.update target ?text (files w)\<rparr>)"
  let ?details = "[(''type'', JString (type_name (profile_type args))),
                   (''profile'', JString (profile_name args)),
                   (''savedAs'', JString targetName),
                   (''key'', JString (setting_key args)),
                   (''oldValue'', ?old),
                   (''newValue'', setting_value args),
                   (''dryRun'', JBool (dry_run args))]"
  let ?A = "auditLog cfg rt now ''update_profile_setting'' ?details ?w1"
  have d: "\<not> has_bigint (JObject ?data)"
    using nb by (rule has_bigint_js_set)
  have o: "\<not> has_bigint ?old"
    using nb(2) by (rule has_bigint_js_get)
  have st: "JSON_stringify rt (JObject ?data) 2 = Inr ?text"
    using d by (simp add: JSON_stringify_def)
  have wr: "safeWriteFile cfg w (path_join [profileDir cfg (profile_type args), targetName]) ?text =
              (Inr (), ?w1)"
    using rs nf nodir by (simp add: safeWriteFile_def writeFile_def)
  have nd: "\<not> has_bigint (JObject ?details)"
    using o nb(1) by simp
  have a1: "fst ?A = Inr ()"
    using auditLog_serialisable [OF nd] by simp
  then obtain w2 where a: "?A = (Inr (), w2)"
    by (metis prod.collapse)
  have resp: "\<not> has_bigint (JObject
               [(''success'', JBool True), (''profile'', JString targetName),
                (''key'', JString (setting_key args)), (''oldValue'', ?old),
                (''newValue'', setting_value args), (''dry_run'', JBool (dry_run args))])"
    using o nb(1) by simp
  have H: "handleUpdateProfileSetting cfg rt now args w =
             (Inr \<lparr>isError = False,
                    content_text = print_json rt 2 (JObject
                      [(''success'', JBool True), (''profile'', JString targetName),
                       (''key'', JString (setting_key args)), (''oldValue'', ?old),
                       (''newValue'', setting_value args), (''dry_run'', JBool (dry_run args))])\<rparr>,
              w2)"
    unfolding handleUpdateProfileSetting_def rp assign_setting_def Let_def tn [symmetric]
    using st wr a resp
    by (simp add: JSON_stringify_def del: has_bigint.simps)
  have f1: "map_of (files ?w1) target = Some ?text"
    by (simp add: update_conv)
  have f2: "map_of (files ?w1) p = map_of (files w) p" if "p \<noteq> target" for p
    using that by (simp add: update_conv)
  have w2: "snd ?A = w2" using a by simp
  show ?thesis
    unfolding H
    using auditLog_other_files [of _ cfg rt now "''update_profile_setting''" ?details ?w1] f1 f2
    unfolding w2 by simp
qed

text \<open>
  The result of the \<open>try\<close> block of \<open>handleSliceModel\<close>, for every way the process can end.
\<close>

lemma run_slicer_result:
  "fst (run_slicer cfg rt env now args cliArgs w) =
     (case run_process env (ORCA_SLICER_PATH cfg) cliArgs (timeout_ms args) of
        Exited code out err \<Rightarrow>
          (if code = 0
           then Inr \<lparr>isError = False,
                     content_text = print_json rt 2
                       (JObject
                         [(''success'', JBool True),
                          (''output_file'', JString (output_file args)),
                          (''stdout'', JString (take 2000 out)),
                          (''stderr'', JString (take 2000 err))])\<rparr>
           else Inl (CliExecutionError
                  (''Slicing failed (exit '' @ show_int code @ ''): '' @
                   execa_message env (Exited code out err) @ [newline] @ take 2000 err)
                  (Some code)))
      | SpawnFailed \<Rightarrow>
          Inl (CliExecutionError
            (''Slicing failed (exit undefined): '' @ execa_message env SpawnFailed @ [newline])
            None)
      | TimedOut out err \<Rightarrow>
          Inl (CliExecutionError
            (''Slicing failed (exit undefined): '' @ execa_message env (TimedOut out err) @
             [newline] @ (if omits_undefined env then [] else take 2000 err))
            None)
      | Killed out err \<Rightarrow>
          Inl (CliExecutionError
            (''Slicing failed (exit undefined): '' @ execa_message env (Killed out err) @
             [newline] @ (if omits_undefined env then [] else take 2000 err))
            None))"
proof (cases "run_process env (ORCA_SLICER_PATH cfg) cliArgs (timeout_ms args)")
  case (Exited code out err)
  show ?thesis
  proof (cases "code = 0")
    case True
    have nb: "\<not> has_bigint (JObject [(''input'', JString (input_file args)),
                   (''output'', JString (output_file args)),
                   (''exitCode'', JNumber (Num (of_int 0)))])"
      by simp
    obtain w1 where a: "auditLog cfg rt now ''slice_model''
                  [(''input'', JString (input_file args)),
                   (''output'', JString (output_file args)),
                   (''exitCode'', JNumber (Num (of_int 0)))] w = (Inr (), w1)"
      using auditLog_serialisable [OF nb, of cfg rt now "''slice_model''" w]
      by (metis fst_conv surj_pair)
    show ?thesis
      using Exited True a
      by (simp add: run_slicer_def execa_def JSON_stringify_def)
  next
    case False
    with Exited show ?thesis
      by (simp add: run_slicer_def execa_def slice_failure_def show_exitCode_def)
  qed
next
  case SpawnFailed
  then show ?thesis
    by (simp add: run_slicer_def execa_def slice_failure_def show_exitCode_def)
next
  case (TimedOut out err)
  then show ?thesis
    by (simp add: run_slicer_def execa_def slice_failure_def show_exitCode_def)
next
  case (Killed out err)
  then show ?thesis
    by (simp add: run_slicer_def execa_def slice_failure_def show_exitCode_def)
qed

text \<open>
  Once \<open>handleSliceModel\<close> has validated its arguments and found the input file, its result
  is that of the \<open>try\<close> block: it fails with \<open>CliExecutionError\<close> when the process exits with
  a code other than 0, cannot be spawned, or is killed; \<open>stdout\<close> and \<open>stderr\<close> of a successful
  result, and the \<open>stderr\<close> appended to the error text, are cut to 2000 characters.
\<close>

lemma handleSliceModel_outcomes:
  assumes "slice_arguments cfg args w = Inr (Inr cliArgs)"
  shows "fst (handleSliceModel cfg rt env now args w) =
     (case run_process env (ORCA_SLICER_PATH cfg) cliArgs (timeout_ms args) of
        Exited code out err \<Rightarrow>
          (if code = 0
           then Inr \<lparr>isError = False,
                     content_text = print_json rt 2
                       (JObject
                         [(''success'', JBool True),
                          (''output_file'', JString (output_file args)),
                          (''stdout'', JString (take 2000 out)),
                          (''stderr'', JString (take 2000 err))])\<rparr>
           else Inl (CliExecutionError
                  (''Slicing failed (exit '' @ show_int code @ ''): '' @
                   execa_message env (Exited code out err) @ [newline] @ take 2000 err)
                  (Some code)))
      | SpawnFailed \<Rightarrow>
          Inl (CliExecutionError
            (''Slicing failed (exit undefined): '' @ execa_message env SpawnFailed @ [newline])
            None)
      | TimedOut out err \<Rightarrow>
          Inl (CliExecutionError
            (''Slicing failed (exit undefined): '' @ execa_message env (TimedOut out err) @
             [newline] @ (if omits_undefined env then [] else take 2000 err))
            None)
      | Killed out err \<Rightarrow>
          Inl (CliExecutionError
            (''Slicing failed (exit undefined): '' @ execa_message env (Killed out err) @
             [newline] @ (if omits_undefined env then [] else take 2000 err))
            None))"
proof -
  have "handleSliceModel cfg rt env now args w =
          run_slicer cfg rt env now args cliArgs (log_stderr cfg Info ''Slicing'' w)"
    using assms by (simp add: handleSliceModel_def)
  then show ?thesis
    by (simp only: run_slicer_result)
qed

lemma js_set_lookup:
  "key \<noteq> ''__proto__'' \<or> map_of props key \<noteq> None \<Longrightarrow>
   map_of (js_set props key v) = (map_of props)(key \<mapsto> v)"
  by (rule ext) (auto simp: js_set_def map_of_js_define)

text \<open>A new property named by an array index is listed before the named ones.\<close>

lemma js_set_index_example:
  "js_set [(''1'', JNull), (''7'', JNull), (''name'', JNull)] ''5'' (JBool True) =
     [(''1'', JNull), (''5'', JBool True), (''7'', JNull), (''name'', JNull)]"
  by (simp add: js_set_def js_define_def is_array_index_def in_range_def digits_value_def
      digit_value_def)

lemma js_set_proto:
  "map_of props ''__proto__'' = None \<Longrightarrow> js_set props ''__proto__'' v = props"
  by (simp add: js_set_def)

lemma example_cwd_absolute: "isAbsolute (cwd example_config)"
  by (simp add: example_config_def isAbsolute_def)

lemma example_work_child:
  assumes "SAFE_FILENAME_RE name"
  shows "resolveSandboxed example_config (path_join [WORKDIR example_config, name]) =
           Inr (path_join [''/work'', name])"
proof -
  have "''/work'' \<in> set (getAllowedRoots example_config)"
    by (simp add: example_roots)
  then show ?thesis
    using child_of_root_accepted [OF example_cwd_absolute _ assms, of "''/work''"]
    by (simp add: example_config_def)
qed

lemma example_names:
  "SAFE_FILENAME_RE ''cube.stl''" "SAFE_FILENAME_RE ''cube.gcode''"
  "SAFE_FILENAME_RE ''standard_quality.json''"
  by (simp_all add: safe_first_def safe_rest_def in_range_def)

lemma example_joins:
  "path_join [''/work'', ''cube.stl''] = ''/work/cube.stl''"
  "path_join [''/work'', ''cube.gcode''] = ''/work/cube.gcode''"
  by (simp_all add: path_join_def normalize_path_def normalizeString_def)

lemma example_inside_work: "inside_root example_config ''/work/cube.stl'' ''/work''"
  by (simp add: inside_root_def relative_def example_config_def resolve_def
        normalizeString_def path_segments_def startsWith_def isAbsolute_def)

lemma example_resolve_cube:
  "resolveSandboxed example_config ''/work/cube.stl'' = Inr ''/work/cube.stl''"
proof -
  have n: "normalize_path ''/work/cube.stl'' = ''/work/cube.stl''"
    by (simp add: normalize_path_def normalizeString_def)
  have rs: "resolve (cwd example_config) [''/work/cube.stl''] = ''/work/cube.stl''"
    by (simp add: example_config_def resolve_def normalizeString_def)
  show ?thesis
    using n rs example_inside_work example_roots by (simp add: resolveSandboxed_def Let_def)
qed

lemma example_cube_exists:
  "safeFileExists example_config example_world ''/work/cube.stl'' = Inr True"
  by (simp add: safeFileExists_def example_resolve_cube access_def example_world_def)

lemma example_directory_exists:
  "safeFileExists example_config example_world ''/work'' = Inr True"
proof -
  have n: "normalize_path ''/work'' = ''/work''"
    by (simp add: normalize_path_def normalizeString_def)
  have rs: "resolve (cwd example_config) [''/work''] = ''/work''"
    by (simp add: example_config_def resolve_def normalizeString_def)
  have r1: "inside_root example_config ''/work'' ''/work''"
    by (simp add: inside_root_def relative_def example_config_def resolve_def
        normalizeString_def path_segments_def startsWith_def isAbsolute_def)
  have r: "resolveSandboxed example_config ''/work'' = Inr ''/work''"
    using n rs r1 example_roots by (simp add: resolveSandboxed_def Let_def)
  show ?thesis
    by (simp add: safeFileExists_def r access_def example_world_def)
qed

lemma example_slice_arguments:
  "slice_arguments example_config example_slice_args example_world =
     Inr (Inr [''--slice'', ''/work/cube.stl'', ''-o'', ''/work/cube.gcode''])"
proof -
  have v: "validateFilename ''cube.stl'' = Inr ()" "validateFilename ''cube.gcode'' = Inr ()"
    using example_names by (simp_all add: validateFilename_def del: SAFE_FILENAME_RE.simps)
  have r1: "resolveSandboxed example_config (path_join [WORKDIR example_config, ''cube.stl'']) =
              Inr ''/work/cube.stl''"
    using example_work_child [OF example_names(1)] by (simp add: example_joins)
  have r2: "resolveSandboxed example_config (path_join [WORKDIR example_config, ''cube.gcode'']) =
              Inr ''/work/cube.gcode''"
    using example_work_child [OF example_names(2)] by (simp add: example_joins)
  show ?thesis
    by (simp add: slice_arguments_def example_slice_args_def v r1 r2 example_cube_exists
        profile_flag_def)
qed

lemma example_profileDir:
  "profileDir example_config Process = ''/home/user/.config/OrcaSlicer/process''"
  by (simp add: profileDir_def example_config_def path_join_def normalize_path_def
      normalizeString_def)

lemma example_profile_joins:
  "path_join [''/home/user/.config/OrcaSlicer/process'', ''standard_quality.json''] =
     example_profile_path"
  "path_join [''/home/user/.config/OrcaSlicer/process'', ''standard_quality_tuned.json''] =
     example_tuned_path"
  by (simp_all add: path_join_def normalize_path_def normalizeString_def
      example_profile_path_def example_tuned_path_def)

lemma example_resolve_settings:
  "resolveSandboxed example_config example_profile_path = Inr example_profile_path"
  "resolveSandboxed example_config example_tuned_path = Inr example_tuned_path"
proof -
  have n: "normalize_path example_profile_path = example_profile_path"
    "normalize_path example_tuned_path = example_tuned_path"
    by (simp_all add: normalize_path_def normalizeString_def example_profile_path_def
        example_tuned_path_def)
  have rs: "resolve (cwd example_config) [example_profile_path] = example_profile_path"
    "resolve (cwd example_config) [example_tuned_path] = example_tuned_path"
    by (simp_all add: example_config_def resolve_def normalizeString_def
        example_profile_path_def example_tuned_path_def)
  have i: "inside_root example_config example_profile_path ''/home/user/.config/OrcaSlicer''"
    "inside_root example_config example_tuned_path ''/home/user/.config/OrcaSlicer''"
    by (simp_all add: inside_root_def relative_def example_config_def resolve_def
        normalizeString_def path_segments_def startsWith_def isAbsolute_def
        example_profile_path_def example_tuned_path_def)
  show "resolveSandboxed example_config example_profile_path = Inr example_profile_path"
    using n(1) rs(1) i(1) example_roots by (simp add: resolveSandboxed_def Let_def)
  show "resolveSandboxed example_config example_tuned_path = Inr example_tuned_path"
    using n(2) rs(2) i(2) example_roots by (simp add: resolveSandboxed_def Let_def)
qed

lemma example_paths_distinct:
  "example_profile_path \<noteq> ''/work/cube.stl''"
  "example_tuned_path \<noteq> example_profile_path"
  "example_tuned_path \<noteq> ''/work/tuning_history.log''"
  "example_profile_path \<noteq> ''/work/tuning_history.log''"
  by (simp_all add: example_profile_path_def example_tuned_path_def)

lemma example_paths_not_directories:
  "example_profile_path \<notin> set (directories example_world)"
  "example_tuned_path \<notin> set (directories example_world)"
  by (simp_all add: example_world_def example_profile_path_def example_tuned_path_def)

lemma example_readProfile:
  "readProfile example_config example_runtime example_world Process ''standard_quality.json'' =
     Inr (JObject example_profile)"
proof -
  have v: "validateFilename ''standard_quality.json'' = Inr ()"
    using example_names by (simp add: validateFilename_def del: SAFE_FILENAME_RE.simps)
  have r: "safeReadFile example_config example_world example_profile_path =
             Inr example_profile_text"
    using example_paths_distinct(1) example_paths_not_directories(1)
    by (simp add: safeReadFile_def example_resolve_settings readFile_def)
       (simp add: example_world_def)
  have p: "parseJSON example_runtime example_profile_text example_profile_path =
             Inr (JObject example_profile)"
    by (simp add: parseJSON_def example_runtime_def)
  show ?thesis
    by (simp add: readProfile_def v example_profileDir example_profile_joins r p)
qed

lemma example_tuned_name: "tuned_name ''standard_quality.json'' = ''standard_quality_tuned.json''"
  by (simp add: tuned_name_def extname_def basename_def last_component_def path_segments_def)

lemma example_log_path:
  "resolve (cwd example_config) [WORKDIR example_config, AUDIT_LOG_FILENAME] =
     ''/work/tuning_history.log''"
  by (simp add: example_config_def AUDIT_LOG_FILENAME_def resolve_def normalizeString_def)

lemma update_example_infill_density:
  "\<not> isl (fst (handleUpdateProfileSetting example_config example_runtime example_now
                  (example_update_args ''infill_density'') example_world)) \<and>
   map_of (files (snd (handleUpdateProfileSetting example_config example_runtime example_now
                  (example_update_args ''infill_density'') example_world))) example_tuned_path =
     Some (print_json example_runtime 2 (JObject example_tuned)) \<and>
   map_of (files (snd (handleUpdateProfileSetting example_config example_runtime example_now
                  (example_update_args ''infill_density'') example_world))) example_profile_path =
     Some example_profile_text"
proof -
  let ?args = "example_update_args ''infill_density''"
  have rp: "readProfile example_config example_runtime example_world (profile_type ?args)
              (profile_name ?args) = Inr (JObject example_profile)"
    by (simp add: example_update_args_def example_readProfile)
  have tn: "''standard_quality_tuned.json'' =
              (if dry_run ?args then tuned_name (profile_name ?args) else profile_name ?args)"
    by (simp add: example_update_args_def example_tuned_name)
  have rs: "resolveSandboxed example_config
              (path_join [profileDir example_config (profile_type ?args),
                 ''standard_quality_tuned.json'']) = Inr example_tuned_path"
    by (simp add: example_update_args_def example_profileDir example_profile_joins
        example_resolve_settings)
  have nf: "map_of (faults example_world) example_tuned_path = None"
    by (simp add: example_world_def)
  have nodir: "example_tuned_path \<notin> set (directories example_world)"
    by (rule example_paths_not_directories)
  have nb: "\<not> has_bigint (setting_value ?args)" "\<not> has_bigint (JObject example_profile)"
    by (simp_all add: example_update_args_def example_profile_def)
  have sk: "js_set example_profile (setting_key ?args) (setting_value ?args) = example_tuned"
    by (simp add: example_update_args_def js_set_def js_define_def example_profile_def
        example_tuned_def)
  have orig: "map_of (files example_world) example_profile_path = Some example_profile_text"
    using example_paths_distinct(1) by (simp add: example_world_def)
  show ?thesis
    using handleUpdateProfileSetting_writes [OF rp tn rs nf nodir nb, of example_now]
      example_paths_distinct orig
    by (simp add: example_log_path sk)
qed

text \<open>
  A binary that cannot be spawned: the error has no exit code and no captured output, in
  its message or after it.
\<close>

lemma example_spawn_failure:
  "fst (handleSliceModel example_config example_runtime (example_env SpawnFailed) example_now
          example_slice_args example_world) =
     Inl (CliExecutionError
       (''Slicing failed (exit undefined): Command failed with ENOENT: '' @ example_command @
        [newline] @ ''spawn /usr/bin/orca-slicer ENOENT'' @ [newline])
       None)"
  using handleSliceModel_outcomes [OF example_slice_arguments, of example_runtime
      "example_env SpawnFailed" example_now]
  by (simp add: example_env_def execa_message_def captured_stderr_def captured_stdout_def)

text \<open>
  A slicer that runs into the timeout after writing to its standard error: what it wrote
  is in the message of execa's error, and is not appended again.
\<close>

lemma example_timeout:
  "fst (handleSliceModel example_config example_runtime
          (example_env (TimedOut [] ''Loading model'')) example_now
          example_slice_args example_world) =
     Inl (CliExecutionError
       (''Slicing failed (exit undefined): Command timed out after 300000 milliseconds: '' @
        example_command @ [newline, newline] @ ''Loading model'' @ [newline])
       None)"
  using handleSliceModel_outcomes [OF example_slice_arguments, of example_runtime
      "example_env (TimedOut [] ''Loading model'')" example_now]
  by (simp add: example_env_def execa_message_def captured_stderr_def captured_stdout_def)

section \<open>The filename validator (C3)\<close>

text \<open>
  C3. \<open>validateFilename\<close> fails with the access-denied error (\<open>SandboxError\<close>) for the
  empty name and for every name containing \<open>/\<close>, \<open>\\<close>, \<open>$\<close>, a backtick or \<open>;\<close>, and it
  succeeds for every name whose first character is an ASCII letter, digit, underscore or
  hyphen and whose other characters are ASCII letters, digits, underscore, hyphen, period
  or space.
\<close>

theorem validateFilename_spec:
  "((name = [] \<or> (\<exists>c \<in> set name. c \<in> set forbidden_chars)) \<longrightarrow>
      validateFilename name = Inl (SandboxError (invalid_filename_message name))) \<and>
   (allowed_class name \<longrightarrow> validateFilename name = Inr ())"
proof (intro conjI impI)
  assume "name = [] \<or> (\<exists>c \<in> set name. c \<in> set forbidden_chars)"
  then have "\<not> SAFE_FILENAME_RE name"
    using SAFE_FILENAME_RE_chars forbidden_not_safe_rest by auto
  then show "validateFilename name = Inl (SandboxError (invalid_filename_message name))"
    by (simp add: validateFilename_def)
next
  assume "allowed_class name"
  then show "validateFilename name = Inr ()"
    by (simp add: validateFilename_def allowed_class_SAFE)
qed

theorem validateFilename_spec_witness:
  "validateFilename ''sub/dir.json'' =
     Inl (SandboxError (invalid_filename_message ''sub/dir.json'')) \<and>
   validateFilename ''PLA-Generic 2.json'' = Inr ()"
proof -
  have a: "\<exists>c \<in> set ''sub/dir.json''. c \<in> set forbidden_chars"
    by (simp add: forbidden_chars_def)
  have b: "allowed_class ''PLA-Generic 2.json''"
    by (simp add: allowed_class_def ascii_letters_def ascii_digits_def)
  from a b show ?thesis
    using validateFilename_spec [of "''sub/dir.json''"]
      validateFilename_spec [of "''PLA-Generic 2.json''"]
    by blast
qed

section \<open>The sandbox on a path under a root (C1)\<close>

text \<open>
  C1 states that \<open>resolveSandboxed\<close> succeeds for every path whose normalized absolute form
  lies under (or equals) an allowed root, and fails with the access-denied error, whose
  message names the raw input, the resolved form and the roots, for every path that
  escapes both roots. The second half holds (\<open>resolveSandboxed_escape\<close>,
  \<open>access_denied_message_mentions\<close>), and so does the first for every path whose first
  segment below the root does not begin with two periods (\<open>resolveSandboxed_inside\<close>). The
  source tests \<open>rel.startsWith("..")\<close> on the relative path as a string, though, so a file
  of the work directory named \<open>..cache\<close> is refused: with the work directory \<open>/work\<close>, the
  path \<open>/work/..cache\<close> is a descendant of the root and \<open>resolveSandboxed\<close> answers the
  access-denied error.
\<close>

theorem resolveSandboxed_rejects_dotdot_named_child:
  "is_descendant (resolve (cwd example_config) [WORKDIR example_config])
     (normalize_path (resolve (cwd example_config) [''/work/..cache''])) \<and>
   resolveSandboxed example_config ''/work/..cache'' =
     Inl (SandboxError (access_denied_message ''/work/..cache'' ''/work/..cache''
       [''/work'', ''/home/user/.config/OrcaSlicer'']))"
proof -
  have n: "normalize_path ''/work/..cache'' = ''/work/..cache''"
    by (simp add: normalize_path_def normalizeString_def)
  have w: "resolve (cwd example_config) [WORKDIR example_config] = ''/work''"
    by (simp add: example_config_def resolve_def normalizeString_def)
  have d: "is_descendant ''/work'' ''/work/..cache''"
    by (simp add: is_descendant_def path_segments_def)
  have r1: "\<not> inside_root example_config ''/work/..cache'' ''/work''"
    by (simp add: inside_root_def relative_def example_config_def resolve_def
        normalizeString_def path_segments_def startsWith_def)
  have r2: "\<not> inside_root example_config ''/work/..cache'' ''/home/user/.config/OrcaSlicer''"
    by (simp add: inside_root_def relative_def example_config_def resolve_def
        normalizeString_def path_segments_def startsWith_def)
  show ?thesis
    using n w d r1 r2 example_roots example_resolve
    by (simp add: resolveSandboxed_def Let_def)
qed

section \<open>The existence check (C2)\<close>

text \<open>
  \<open>safeFileExists\<close> does throw: the sandbox check stands before its \<open>try\<close> block, as in every
  other safe file operation, so for a path outside the allowed roots the access-denied
  error reaches the caller.
\<close>

theorem safeFileExists_throws_outside_sandbox:
  "safeFileExists example_config example_world ''/etc/passwd'' =
     Inl (SandboxError (access_denied_message ''/etc/passwd'' ''/etc/passwd''
       [''/work'', ''/home/user/.config/OrcaSlicer'']))"
proof -
  have n: "normalize_path ''/etc/passwd'' = ''/etc/passwd''"
    by (simp add: normalize_path_def normalizeString_def)
  have r1: "\<not> inside_root example_config ''/etc/passwd'' ''/work''"
    by (simp add: inside_root_def relative_def example_config_def resolve_def
        normalizeString_def path_segments_def startsWith_def)
  have r2: "\<not> inside_root example_config ''/etc/passwd'' ''/home/user/.config/OrcaSlicer''"
    by (simp add: inside_root_def relative_def example_config_def resolve_def
        normalizeString_def path_segments_def startsWith_def)
  have "resolveSandboxed example_config ''/etc/passwd'' =
     Inl (SandboxError (access_denied_message ''/etc/passwd'' ''/etc/passwd''
       [''/work'', ''/home/user/.config/OrcaSlicer'']))"
    using n r1 r2 example_roots example_resolve_etc
    by (simp add: resolveSandboxed_def Let_def)
  then show ?thesis by (simp add: safeFileExists_def)
qed

text \<open>
  C2, as the code has it. \<open>safeFileExists\<close> throws nothing but the sandbox's access-denied
  error, and only for a path the sandbox refuses. For every path the sandbox accepts it
  returns a boolean whatever the file system does: \<open>true\<close> when \<open>access\<close> succeeds, \<open>false\<close>
  for every failure of \<open>access\<close>.
\<close>

theorem safeFileExists_throws_only_sandbox_error:
  "(case resolveSandboxed cfg filePath of
      Inr safe \<Rightarrow> safeFileExists cfg w filePath = Inr (access w safe = Inr ())
    | Inl e \<Rightarrow> safeFileExists cfg w filePath = Inl e \<and> (\<exists>msg. e = SandboxError msg))"
  using resolveSandboxed_error [of cfg filePath]
  by (auto simp: safeFileExists_def split: sum.splits)

theorem safeFileExists_throws_only_sandbox_error_witness:
  "safeFileExists example_config example_world ''/work/none.stl'' = Inr False"
proof -
  have n: "normalize_path ''/work/none.stl'' = ''/work/none.stl''"
    by (simp add: normalize_path_def normalizeString_def)
  have rs: "resolve (cwd example_config) [''/work/none.stl''] = ''/work/none.stl''"
    by (simp add: example_config_def resolve_def normalizeString_def)
  have r1: "inside_root example_config ''/work/none.stl'' ''/work''"
    by (simp add: inside_root_def relative_def example_config_def resolve_def
        normalizeString_def path_segments_def startsWith_def isAbsolute_def)
  have r: "resolveSandboxed example_config ''/work/none.stl'' = Inr ''/work/none.stl''"
    using n rs r1 example_roots by (simp add: resolveSandboxed_def Let_def)
  have a: "access example_world ''/work/none.stl'' = Inl (ErrnoException ''ENOENT'')"
    by (simp add: access_def example_world_def example_profile_path_def)
  show ?thesis
    using safeFileExists_throws_only_sandbox_error [where cfg = example_config and filePath = "''/work/none.stl''"
        and w = example_world] r a
    by simp
qed

section \<open>The subprocess invocation (C4)\<close>

text \<open>
  C4 states that the subprocess invocation fails with \<open>CliExecutionError\<close> when the process
  exits with a code other than 0, cannot be spawned or runs into the timeout, that the
  captured output embedded in the result or in the error is cut to 2000 characters, and
  that a binary that cannot be spawned gives an error with no exit code and no captured
  output. The first and the last hold, and so does the bound for what \<open>handleSliceModel\<close>
  cuts itself: \<open>stdout\<close> and \<open>stderr\<close> of a successful result and the \<open>stderr\<close> it appends to
  the error text (\<open>handleSliceModel_outcomes\<close>, \<open>example_spawn_failure\<close>). But before that
  \<open>stderr\<close> the error text holds the message of execa's error, uncut, and that message
  carries the whole captured output: when the slicer exits with code 1 after writing 3000
  characters to its standard error, the text of the \<open>CliExecutionError\<close> holds all 3000
  of them, and then the first 2000 again.
\<close>

theorem handleSliceModel_error_embeds_whole_output:
  "fst (handleSliceModel example_config example_runtime
          (example_env (Exited 1 [] (replicate 3000 CHR ''E''))) example_now
          example_slice_args example_world) =
     Inl (CliExecutionError
       (''Slicing failed (exit 1): Command failed with exit code 1: '' @ example_command @
        [newline, newline] @ replicate 3000 CHR ''E'' @ [newline] @ replicate 2000 CHR ''E'')
       (Some 1))"
proof -
  have r: "replicate 3000 CHR ''E'' \<noteq> []"
    by simp
  have s: "show_int 1 = ''1''"
    by (simp add: show_int_def show_nat.simps)
  have m: "execa_message (example_env (Exited 1 [] (replicate 3000 CHR ''E'')))
             (Exited 1 [] (replicate 3000 CHR ''E'')) =
           ''Command failed with exit code 1: '' @ example_command @ [newline, newline] @
           replicate 3000 CHR ''E''"
    using r s by (simp add: execa_message_def example_env_def captured_stderr_def
        captured_stdout_def example_command_def)
  have t: "take 2000 (replicate 3000 CHR ''E'') = replicate 2000 CHR ''E''"
    by (simp add: take_replicate)
  have o: "run_process (example_env (Exited 1 [] (replicate 3000 CHR ''E'')))
             (ORCA_SLICER_PATH example_config)
             [''--slice'', ''/work/cube.stl'', ''-o'', ''/work/cube.gcode'']
             (timeout_ms example_slice_args) = Exited 1 [] (replicate 3000 CHR ''E'')"
    by (simp add: example_env_def)
  show ?thesis
    using handleSliceModel_outcomes [OF example_slice_arguments, of example_runtime
        "example_env (Exited 1 [] (replicate 3000 CHR ''E''))" example_now]
    unfolding o by (simp only: process_outcome.case m s t) simp
qed

section \<open>The copy-on-write update (C5)\<close>

text \<open>
  C5 states that a dry-run update leaves the original file unchanged and writes a sibling
  file, named with \<open>_tuned\<close> before the extension, in which the key has the new value and
  every other key its old one. That is what \<open>handleUpdateProfileSetting\<close> does for a key
  other than \<open>__proto__\<close> (\<open>handleUpdateProfileSetting_writes\<close>, \<open>js_set_lookup\<close>,
  \<open>update_example_infill_density\<close>). For the key \<open>__proto__\<close>, which the profile of the example
  does not have, the assignment \<open>data[args.key] = args.value\<close> sets no property: the handler
  reports success and the sibling file holds the original document, without the key.
\<close>

theorem update_of_proto_key_writes_unchanged_document:
  "map_of example_profile ''__proto__'' = None \<and>
   readProfile example_config example_runtime example_world Process ''standard_quality.json'' =
     Inr (JObject example_profile) \<and>
   \<not> isl (fst (handleUpdateProfileSetting example_config example_runtime example_now
                  (example_update_args ''__proto__'') example_world)) \<and>
   map_of (files (snd (handleUpdateProfileSetting example_config example_runtime example_now
                  (example_update_args ''__proto__'') example_world))) example_tuned_path =
     Some (print_json example_runtime 2 (JObject example_profile))"
proof -
  let ?args = "example_update_args ''__proto__''"
  have np: "map_of example_profile ''__proto__'' = None"
    by (simp add: example_profile_def)
  have rp: "readProfile example_config example_runtime example_world (profile_type ?args)
              (profile_name ?args) = Inr (JObject example_profile)"
    by (simp add: example_update_args_def example_readProfile)
  have tn: "''standard_quality_tuned.json'' =
              (if dry_run ?args then tuned_name (profile_name ?args) else profile_name ?args)"
    by (simp add: example_update_args_def example_tuned_name)
  have rs: "resolveSandboxed example_config
              (path_join [profileDir example_config (profile_type ?args),
                 ''standard_quality_tuned.json'']) = Inr example_tuned_path"
    by (simp add: example_update_args_def example_profileDir example_profile_joins
        example_resolve_settings)
  have nf: "map_of (faults example_world) example_tuned_path = None"
    by (simp add: example_world_def)
  have nodir: "example_tuned_path \<notin> set (directories example_world)"
    by (rule example_paths_not_directories)
  have nb: "\<not> has_bigint (setting_value ?args)" "\<not> has_bigint (JObject example_profile)"
    by (simp_all add: example_update_args_def example_profile_def)
  have sk: "js_set example_profile (setting_key ?args) (setting_value ?args) = example_profile"
    using js_set_proto [OF np] by (simp add: example_update_args_def)
  show ?thesis
    using handleUpdateProfileSetting_writes [OF rp tn rs nf nodir nb, of example_now]
      example_paths_distinct(3) np example_readProfile
    by (simp add: example_log_path sk)
qed

section \<open>The metadata parser is total and reads the tail (C6)\<close>

text \<open>
  C6. \<open>parseGcodeMetadata\<close> is a pure function defined on every string: none of the
  operations of its body (\<open>slice\<close>, \<open>split\<close>, \<open>trim\<close>, \<open>startsWith\<close>, \<open>match\<close>, \<open>parseFloat\<close>,
  \<open>parseInt\<close>, the assignment of a property) throws, so the embedding has no error branch.
  On the empty string it returns the empty mapping; on every string it returns a mapping
  (no key twice); and it examines only the final 4096 units: two inputs with the same
  final 4096 units have the same result.
\<close>

theorem parseGcodeMetadata_total_on_tail:
  "parseGcodeMetadata [] = [] \<and>
   distinct (map fst (parseGcodeMetadata g)) \<and>
   (\<forall>g'. drop (length g - 4096) g = drop (length g' - 4096) g' \<longrightarrow>
      parseGcodeMetadata g = parseGcodeMetadata g')"
  by (simp add: parseGcodeMetadata_empty parseGcodeMetadata_distinct)
    (simp add: parseGcodeMetadata_def)

theorem parseGcodeMetadata_total_on_tail_witness:
  "parseGcodeMetadata (''G28'' @ replicate 4096 CHR ''x'') =
   parseGcodeMetadata (''G1 X10 Y10'' @ replicate 4096 CHR ''x'')"
proof -
  have "drop (length (''G28'' @ replicate 4096 CHR ''x'') - 4096) (''G28'' @ replicate 4096 CHR ''x'') =
        drop (length (''G1 X10 Y10'' @ replicate 4096 CHR ''x'') - 4096)
          (''G1 X10 Y10'' @ replicate 4096 CHR ''x'')"
    by simp
  then show ?thesis
    using parseGcodeMetadata_total_on_tail [of "''G28'' @ replicate 4096 CHR ''x''"] by blast
qed

section \<open>The scenario of the two trailing comment lines (C7)\<close>

text \<open>
  C7. For every G-code text whose last two lines are \<open>; filament used [g] = 37.5\<close> and
  \<open>; total layers count = 150\<close> (what precedes them is empty or ends with a line feed), the
  mapping \<open>parseGcodeMetadata\<close> returns has \<open>filamentUsedG\<close> equal to 37.5 and \<open>layerCount\<close>
  equal to 150.
\<close>

theorem parseGcodeMetadata_scenario:
  assumes "p = [] \<or> last p = newline"
  shows "js_get (parseGcodeMetadata (p @ filament_line @ [newline] @ layers_line))
           ''filamentUsedG'' = JNumber (Num 37.5) \<and>
         js_get (parseGcodeMetadata (p @ filament_line @ [newline] @ layers_line))
           ''layerCount'' = JNumber (Num 150)"
proof -
  let ?s = "filament_line @ [newline] @ layers_line"
  let ?p' = "drop (length p - (4096 - length ?s)) p"
  have "length ?s = 53"
    by (simp add: filament_line_def layers_line_def)
  then have len: "length ?s \<le> 4096"
    by (simp only:)
  have tail: "drop (length (p @ ?s) - 4096) (p @ ?s) = ?p' @ ?s"
    using tail_of_long_text [OF len] .
  have p': "?p' = [] \<or> last ?p' = newline"
    using assms by (cases "?p' = []") (auto simp: last_drop)
  have n1: "newline \<notin> set filament_line" and n2: "newline \<notin> set layers_line"
    by (simp_all add: filament_line_def layers_line_def newline_def)
  obtain ls where ls: "split_on newline (?p' @ ?s) = ls @ [filament_line, layers_line]"
    using last_two_lines [OF p' n1 n2] by blast
  have "parseGcodeMetadata (p @ ?s) =
          js_set (js_set (foldl process_line [] ls) ''filamentUsedG'' (JNumber (Num 37.5)))
            ''layerCount'' (JNumber (Num 150))"
    unfolding parseGcodeMetadata_def tail Let_def ls
    by (simp add: process_filament_line process_layers_line)
  then show ?thesis
    by (simp add: js_get_js_set_same js_get_js_set_other)
qed

theorem parseGcodeMetadata_scenario_witness:
  "js_get (parseGcodeMetadata (''G28'' @ [newline] @ filament_line @ [newline] @ layers_line))
     ''filamentUsedG'' = JNumber (Num 37.5) \<and>
   js_get (parseGcodeMetadata (''G28'' @ [newline] @ filament_line @ [newline] @ layers_line))
     ''layerCount'' = JNumber (Num 150)"
proof -
  have "(''G28'' @ [newline]) = [] \<or> last (''G28'' @ [newline]) = newline" by simp
  then show ?thesis
    using parseGcodeMetadata_scenario [of "''G28'' @ [newline]"] by simp
qed

section \<open>Generic keys (C8)\<close>

text \<open>
  C8 states that a generic \<open>key = value\<close> line is stored under its normalized key unless
  that key is already present, so that the first occurrence wins. A later duplicate is
  indeed dropped (\<open>process_line_generic\<close>, \<open>first_generic_key_wins_example\<close>). But the source
  asks \<open>key in meta\<close>, which also holds for the names every object inherits from
  \<open>Object.prototype\<close>: the line \<open>; constructor = PLA\<close> fits the generic shape, its normalized
  key \<open>constructor\<close> is not present in the empty result, and yet nothing is stored.
\<close>

theorem generic_key_constructor_is_dropped:
  "kvMatch ''constructor = PLA'' = Some (''constructor'', ''PLA'') \<and>
   normalize_key ''constructor'' = ''constructor'' \<and>
   parseGcodeMetadata ''; constructor = PLA'' = []"
  by code_simp

section \<open>The audit log (C9)\<close>




section \<open>A validated name under a root (C10)\<close>

text \<open>
  C10. For every filename \<open>validateFilename\<close> accepts and each of the two allowed roots,
  \<open>resolveSandboxed\<close> accepts the name joined under the root, and the result is a direct
  child of the root: its segments are the root's followed by the name. The working
  directory of the process is an absolute path, as \<open>process.cwd()\<close> is.
\<close>

theorem validated_name_resolves_to_child:
  assumes "isAbsolute (cwd cfg)" and "r \<in> set (getAllowedRoots cfg)"
    and "SAFE_FILENAME_RE name"
  shows "resolveSandboxed cfg (path_join [r, name]) = Inr (path_join [r, name]) \<and>
         path_segments (path_join [r, name]) = path_segments r @ [name]"
  using assms by (rule child_of_root_accepted)

theorem validated_name_resolves_to_child_witness:
  "resolveSandboxed example_config (path_join [''/work'', ''cube.stl'']) =
     Inr (path_join [''/work'', ''cube.stl'']) \<and>
   path_segments (path_join [''/work'', ''cube.stl'']) = path_segments ''/work'' @ [''cube.stl'']"
proof -
  have a: "isAbsolute (cwd example_config)"
    by (simp add: example_config_def isAbsolute_def)
  have b: "''/work'' \<in> set (getAllowedRoots example_config)"
    by (simp add: example_roots)
  have c: "SAFE_FILENAME_RE ''cube.stl''"
    by (simp add: safe_first_def safe_rest_def in_range_def)
  show ?thesis
    using validated_name_resolves_to_child [OF a b c] .
qed

end
